theory Spec2Isabelle
  imports Main "HOL-Library.Sublist"
begin

section \<open>Python strings\<close>

text \<open>
  A Python \<open>str\<close> is modelled as a \<open>string\<close> holding its UTF-8 bytes. Substring tests,
  prefix and suffix tests and splitting at an ASCII separator give the same answers on
  UTF-8 bytes as on code points.

  \<open>str.lower\<close> follows the Unicode tables (it sends the Kelvin sign to \<open>k\<close>, for one), so
  it is not written out here: every definition that calls it takes it as its first
  argument \<open>lw\<close>, and the theorems hold for every \<open>lw\<close>. \<open>ascii_lower\<close> is what \<open>str.lower\<close>
  does on ASCII text; the examples, all of them ASCII, are run with it.
\<close>

definition lower_char :: "char \<Rightarrow> char" where
  "lower_char c =
     (case map_of (zip ''ABCDEFGHIJKLMNOPQRSTUVWXYZ'' ''abcdefghijklmnopqrstuvwxyz'') c of
        None \<Rightarrow> c
      | Some d \<Rightarrow> d)"

definition ascii_lower :: "string \<Rightarrow> string" where
  "ascii_lower s = map lower_char s"

text \<open>\<open>kw in s\<close> and \<open>s.endswith(suf)\<close>.\<close>

definition str_in :: "string \<Rightarrow> string \<Rightarrow> bool" where
  "str_in kw s = sublist kw s"

definition endswith :: "string \<Rightarrow> string \<Rightarrow> bool" where
  "endswith s suf = suffix suf s"

text \<open>\<open>s.split(sep)\<close> for a one-character separator: never empty, \<open>''.split(sep) == ['']\<close>.\<close>

fun split_on :: "char \<Rightarrow> string \<Rightarrow> string list" where
  "split_on sep [] = [[]]"
| "split_on sep (c # cs) =
     (if c = sep then [] # split_on sep cs
      else (case split_on sep cs of
              [] \<Rightarrow> [[c]]
            | w # ws \<Rightarrow> (c # w) # ws))"

text \<open>\<open>sep.join(xs)\<close>.\<close>

fun join :: "string \<Rightarrow> string list \<Rightarrow> string" where
  "join sep [] = []"
| "join sep [x] = x"
| "join sep (x # y # ys) = x @ sep @ join sep (y # ys)"

section \<open>os.path and pathlib\<close>

text \<open>
  The program runs on POSIX systems and on Windows, and paths differ between the two:
  \<open>os.sep\<close> is \<open>/\<close> on the first and the backslash on the second, where pathlib also
  takes \<open>/\<close> for a separator (it replaces it by the backslash before it splits).
\<close>

datatype flavour = Posix | Windows

definition os_sep :: "flavour \<Rightarrow> char" where
  "os_sep fl = (case fl of Posix \<Rightarrow> CHR ''/'' | Windows \<Rightarrow> CHR 0x5C)"

definition normsep :: "flavour \<Rightarrow> string \<Rightarrow> string" where
  "normsep fl p =
     (case fl of
        Posix \<Rightarrow> p
      | Windows \<Rightarrow> map (\<lambda>c. if c = CHR ''/'' then CHR 0x5C else c) p)"

text \<open>
  \<open>Path(p).parts\<close>: the root (one separator, or two for exactly two leading separators)
  when there is one, then the segments between separators, without the empty ones and
  the \<open>.\<close> ones. \<open>path_str fl ps\<close> is \<open>str(Path(*ps))\<close> for \<open>ps\<close> an initial part of such a
  tuple. On Windows pathlib also splits off a drive letter or a network share; the model
  reads those as names. The paths of a project scan have neither. For each flavour
  \<open>normal_rel_path\<close> below names the paths on which the model is pathlib, and the one
  statement that depends on the exact parts assumes it.
\<close>

definition path_root :: "flavour \<Rightarrow> string \<Rightarrow> string" where
  "path_root fl p =
     (let s = os_sep fl; q = normsep fl p in
      if take 2 q = [s, s] \<and> take 3 q \<noteq> [s, s, s] then [s, s]
      else if take 1 q = [s] then [s]
      else [])"

definition path_parts :: "flavour \<Rightarrow> string \<Rightarrow> string list" where
  "path_parts fl p =
     (if path_root fl p = [] then [] else [path_root fl p]) @
     filter (\<lambda>x. x \<noteq> [] \<and> x \<noteq> ''.'') (split_on (os_sep fl) (normsep fl p))"

definition path_str :: "flavour \<Rightarrow> string list \<Rightarrow> string" where
  "path_str fl ps =
     (let s = os_sep fl in
      case ps of
        [] \<Rightarrow> ''.''
      | r # ns \<Rightarrow> if r = [s] \<or> r = [s, s] then r @ join [s] ns else join [s] ps)"

section \<open>The file system under the project path\<close>

text \<open>
  What \<open>os.walk\<close> and \<open>read_text\<close> see at \<open>self.path\<close>. A directory lists its entries in
  \<open>scandir\<close> order. A file holds the text \<open>read_text(encoding='utf-8', errors='ignore')\<close>
  returns, or \<open>None\<close> when reading it raises. The analyzer is given \<open>None\<close> when nothing
  exists at the path.
\<close>

datatype fsnode = File "string option" | Dir "(string \<times> fsnode) list"

fun is_dir :: "fsnode \<Rightarrow> bool" where
  "is_dir (Dir es) = True"
| "is_dir (File c) = False"

definition ignore_dirs :: "string set" where
  "ignore_dirs = {''.git'', ''node_modules'', ''__pycache__'', ''.netlify'', ''venv'', ''.venv''}"

text \<open>
  \<open>os.walk\<close>, top down, with the caller's pruning of \<open>dirs\<close>: the files of a directory in
  listing order, then each kept subdirectory in listing order. \<open>pre\<close> is the list of
  directory names from the root, so the names of \<open>pre @ [name]\<close> joined by \<open>os.sep\<close> are
  the \<open>relpath\<close>.
  A top that is not a directory makes \<open>scandir\<close> fail; \<open>os.walk\<close> swallows that error
  (no \<open>onerror\<close>) and yields nothing.
\<close>

fun walk :: "flavour \<Rightarrow> string list \<Rightarrow> fsnode \<Rightarrow> string list" where
  "walk fl pre (File c) = []"
| "walk fl pre (Dir es) =
     map (\<lambda>e. join [os_sep fl] (pre @ [fst e])) (filter (\<lambda>e. \<not> is_dir (snd e)) es) @
     concat (map (\<lambda>e. walk fl (pre @ [fst e]) (snd e))
                 (filter (\<lambda>e. is_dir (snd e) \<and> fst e \<notin> ignore_dirs) es))"

definition scan_files :: "flavour \<Rightarrow> fsnode option \<Rightarrow> string list" where
  "scan_files fl fs = (case fs of None \<Rightarrow> [] | Some node \<Rightarrow> walk fl [] node)"

text \<open>\<open>(self.path / file).read_text(...)\<close>: \<open>None\<close> when it raises.\<close>

fun lookup :: "fsnode \<Rightarrow> string list \<Rightarrow> fsnode option" where
  "lookup n [] = Some n"
| "lookup (File c) (s # ss) = None"
| "lookup (Dir es) (s # ss) =
     (case map_of es s of None \<Rightarrow> None | Some n \<Rightarrow> lookup n ss)"

definition read_text :: "flavour \<Rightarrow> fsnode option \<Rightarrow> string \<Rightarrow> string option" where
  "read_text fl fs file =
     (case fs of
        None \<Rightarrow> None
      | Some node \<Rightarrow>
          (case lookup node (filter (\<lambda>x. x \<noteq> [] \<and> x \<noteq> ''.'')
                               (split_on (os_sep fl) (normsep fl file))) of
             Some (File c) \<Rightarrow> c
           | _ \<Rightarrow> None))"

section \<open>ProjectAnalyzer\<close>

text \<open>
  The analysis dictionary. The wizard (\<open>netlify_ai.py\<close>) has the keys of \<open>analysis\<close>; the
  web application (\<open>app.py\<close>) has three more.
\<close>

record analysis =
  type :: string
  has_html :: bool
  has_python :: bool
  has_node :: bool
  has_netlify_config :: bool
  has_env_file :: bool
  has_env_example :: bool
  has_gitignore :: bool
  has_requirements :: bool
  has_package_json :: bool
  python_files :: "string list"
  env_vars_needed :: "string list"
  publish_dir :: string
  functions_dir :: "string option"
  build_command :: "string option"

record analysis_web = analysis +
  type_name :: string
  file_count :: nat
  path :: string

subsection \<open>Environment variables\<close>

definition patterns_web :: "(string \<times> string list) list" where
  "patterns_web =
     [(''OPENAI_API_KEY'', [''openai'', ''gpt'', ''chatgpt'']),
      (''GOOGLE_API_KEY'', [''google'', ''gemini'', ''generativeai'']),
      (''ANTHROPIC_API_KEY'', [''anthropic'', ''claude'']),
      (''DATABASE_URL'', [''database'', ''postgres'', ''mysql'', ''mongodb'']),
      (''SECRET_KEY'', [''secret'', ''jwt'', ''session''])]"

definition patterns_wizard :: "(string \<times> string list) list" where
  "patterns_wizard =
     [(''OPENAI_API_KEY'', [''openai'', ''gpt'', ''chatgpt'']),
      (''GOOGLE_API_KEY'', [''google'', ''gemini'', ''generativeai'']),
      (''ANTHROPIC_API_KEY'', [''anthropic'', ''claude'']),
      (''DATABASE_URL'', [''database'', ''postgres'', ''mysql'', ''mongodb'']),
      (''SECRET_KEY'', [''secret'', ''jwt'', ''session'']),
      (''API_KEY'', [''api_key'', ''apikey''])]"

definition source_exts :: "string list" where
  "source_exts = [''.py'', ''.js'', ''.ts'', ''.jsx'', ''.tsx'']"

text \<open>
  \<open>env_vars\<close> is a Python set, returned as \<open>list(env_vars)\<close>. The model keeps the names in
  the order of their first \<open>add\<close>; Python leaves the order of the list open, so the
  theorems below speak of its elements only.
\<close>

definition set_add :: "string \<Rightarrow> string list \<Rightarrow> string list" where
  "set_add x xs = (if x \<in> set xs then xs else xs @ [x])"

definition match_patterns :: "(string \<times> string list) list \<Rightarrow> string \<Rightarrow> string list \<Rightarrow> string list" where
  "match_patterns patterns content env_vars =
     fold (\<lambda>p acc. if list_ex (\<lambda>kw. str_in kw content) (snd p) then set_add (fst p) acc else acc)
          patterns env_vars"

definition detect_env_vars ::
  "(string \<times> string list) list \<Rightarrow> (string \<Rightarrow> string) \<Rightarrow> (string \<Rightarrow> string option) \<Rightarrow>
     string list \<Rightarrow> string list" where
  "detect_env_vars patterns lw rd files =
     fold (\<lambda>file env_vars.
             if list_ex (endswith file) source_exts then
               (case rd file of
                  None \<Rightarrow> env_vars
                | Some text \<Rightarrow> match_patterns patterns (lw text) env_vars)
             else env_vars)
          files []"

definition detect_env_vars_web ::
  "(string \<Rightarrow> string) \<Rightarrow> (string \<Rightarrow> string option) \<Rightarrow> string list \<Rightarrow> string list" where
  "detect_env_vars_web = detect_env_vars patterns_web"

definition detect_env_vars_wizard ::
  "(string \<Rightarrow> string) \<Rightarrow> (string \<Rightarrow> string option) \<Rightarrow> string list \<Rightarrow> string list" where
  "detect_env_vars_wizard = detect_env_vars patterns_wizard"

subsection \<open>detect_project_type\<close>

text \<open>
  The body of the loop \<open>for file in self.files\<close>, the same text in both programs; it
  touches no key that only the web application has.
\<close>

definition flag_file ::
  "(string \<Rightarrow> string) \<Rightarrow> string \<Rightarrow> 'a analysis_scheme \<Rightarrow> 'a analysis_scheme" where
  "flag_file lw file a0 =
     (let file_lower = lw file;
          a1 = (if endswith file_lower ''.html'' then a0\<lparr>has_html := True\<rparr> else a0);
          a2 = (if endswith file_lower ''.py''
                then a1\<lparr>has_python := True, python_files := python_files a1 @ [file]\<rparr> else a1);
          a3 = (if file_lower = ''package.json''
                then a2\<lparr>has_node := True, has_package_json := True\<rparr> else a2);
          a4 = (if file_lower = ''netlify.toml'' then a3\<lparr>has_netlify_config := True\<rparr> else a3);
          a5 = (if file_lower = ''.env'' then a4\<lparr>has_env_file := True\<rparr> else a4);
          a6 = (if file_lower = ''.env.example'' then a5\<lparr>has_env_example := True\<rparr> else a5);
          a7 = (if file_lower = ''.gitignore'' then a6\<lparr>has_gitignore := True\<rparr> else a6);
          a8 = (if file_lower = ''requirements.txt'' then a7\<lparr>has_requirements := True\<rparr> else a7)
      in a8)"

text \<open>
  \<open>for i, part in enumerate(parts)\<close>: the first part containing \<open>functions\<close> gives
  \<open>str(Path(*parts[:i+1]))\<close>; \<open>None\<close> when the loop ends without assigning.
\<close>

fun find_functions_part ::
  "(string \<Rightarrow> string) \<Rightarrow> flavour \<Rightarrow> string list \<Rightarrow> nat \<Rightarrow> string list \<Rightarrow> string option" where
  "find_functions_part lw fl parts i [] = None"
| "find_functions_part lw fl parts i (part # rest) =
     (if str_in ''functions'' (lw part) then Some (path_str fl (take (i + 1) parts))
      else find_functions_part lw fl parts (i + 1) rest)"

definition qualifies :: "(string \<Rightarrow> string) \<Rightarrow> string \<Rightarrow> bool" where
  "qualifies lw py_file \<longleftrightarrow>
     str_in ''functions'' (lw py_file) \<or> str_in ''netlify'' (lw py_file)"

text \<open>\<open>for py_file in analysis['python_files']\<close>, left by \<open>break\<close> at the first qualifying file.\<close>

fun python_loop_web ::
  "(string \<Rightarrow> string) \<Rightarrow> flavour \<Rightarrow> string list \<Rightarrow> analysis_web \<Rightarrow> analysis_web" where
  "python_loop_web lw fl [] a = a"
| "python_loop_web lw fl (py_file # rest) a =
     (if qualifies lw py_file then
        (let a1 = a\<lparr>type := ''python-functions'', type_name := ''Python Serverless Functions''\<rparr>;
             parts = path_parts fl py_file
         in (case find_functions_part lw fl parts 0 parts of
               None \<Rightarrow> a1
             | Some d \<Rightarrow> a1\<lparr>functions_dir := Some d\<rparr>))
      else python_loop_web lw fl rest a)"

fun python_loop_wizard ::
  "(string \<Rightarrow> string) \<Rightarrow> flavour \<Rightarrow> string list \<Rightarrow> analysis \<Rightarrow> analysis" where
  "python_loop_wizard lw fl [] a = a"
| "python_loop_wizard lw fl (py_file # rest) a =
     (if qualifies lw py_file then
        (let a1 = a\<lparr>type := ''python-functions''\<rparr>;
             parts = path_parts fl py_file
         in (case find_functions_part lw fl parts 0 parts of
               None \<Rightarrow> a1
             | Some d \<Rightarrow> a1\<lparr>functions_dir := Some d\<rparr>))
      else python_loop_wizard lw fl rest a)"

definition type_name_static :: string where
  "type_name_static =
     [CHR 0xE9, CHR 0x9D, CHR 0x9C, CHR 0xE6, CHR 0x85, CHR 0x8B,
      CHR 0xE7, CHR 0xB6, CHR 0xB2, CHR 0xE7, CHR 0xAB, CHR 0x99]"

definition type_name_node :: string where
  "type_name_node = ''Node.js '' @ [CHR 0xE5, CHR 0xB0, CHR 0x88, CHR 0xE6, CHR 0xA1, CHR 0x88]"

text \<open>
  \<open>detect_project_type\<close> after its first statement \<open>self.scan_files()\<close>: \<open>files\<close> is
  \<open>self.files\<close>, \<open>rd\<close> reads a file of the project, \<open>root\<close> is \<open>str(self.path)\<close>.
\<close>

definition detect_from_files_web ::
  "(string \<Rightarrow> string) \<Rightarrow> flavour \<Rightarrow> string \<Rightarrow> (string \<Rightarrow> string option) \<Rightarrow> string list \<Rightarrow>
     analysis_web" where
  "detect_from_files_web lw fl root rd files =
     (let a0 = \<lparr>type = ''static'', has_html = False, has_python = False, has_node = False,
                has_netlify_config = False, has_env_file = False, has_env_example = False,
                has_gitignore = False, has_requirements = False, has_package_json = False,
                python_files = [], env_vars_needed = [], publish_dir = ''.'',
                functions_dir = None, build_command = None,
                type_name = type_name_static, file_count = length files, path = root\<rparr>;
          a1 = fold (flag_file lw) files a0;
          a2 = (if has_python a1 then
                  (let b = python_loop_web lw fl (python_files a1) a1
                   in if type b = ''static'' \<and> has_python b
                      then b\<lparr>type := ''python-functions'',
                             type_name := ''Python Serverless Functions''\<rparr>
                      else b)
                else a1);
          a3 = (if has_node a2 \<and> has_package_json a2
                then a2\<lparr>type := ''node-project'', type_name := type_name_node,
                        build_command := Some ''npm run build''\<rparr>
                else a2)
      in a3\<lparr>env_vars_needed := detect_env_vars_web lw rd files\<rparr>)"

definition detect_from_files_wizard ::
  "(string \<Rightarrow> string) \<Rightarrow> flavour \<Rightarrow> (string \<Rightarrow> string option) \<Rightarrow> string list \<Rightarrow> analysis" where
  "detect_from_files_wizard lw fl rd files =
     (let a0 = \<lparr>type = ''static'', has_html = False, has_python = False, has_node = False,
                has_netlify_config = False, has_env_file = False, has_env_example = False,
                has_gitignore = False, has_requirements = False, has_package_json = False,
                python_files = [], env_vars_needed = [], publish_dir = ''.'',
                functions_dir = None, build_command = None\<rparr>;
          a1 = fold (flag_file lw) files a0;
          a2 = (if has_python a1 then
                  (let b = python_loop_wizard lw fl (python_files a1) a1
                   in if type b = ''static'' \<and> has_python b
                      then b\<lparr>type := ''python-functions''\<rparr>
                      else b)
                else a1);
          a3 = (if has_node a2 \<and> has_package_json a2
                then a2\<lparr>type := ''node-project'', build_command := Some ''npm run build''\<rparr>
                else a2)
      in a3\<lparr>env_vars_needed := detect_env_vars_wizard lw rd files\<rparr>)"

text \<open>The whole method: scan, then classify what the scan found.\<close>

definition detect_project_type_web ::
  "(string \<Rightarrow> string) \<Rightarrow> flavour \<Rightarrow> string \<Rightarrow> fsnode option \<Rightarrow> analysis_web" where
  "detect_project_type_web lw fl root fs =
     detect_from_files_web lw fl root (read_text fl fs) (scan_files fl fs)"

definition detect_project_type_wizard ::
  "(string \<Rightarrow> string) \<Rightarrow> flavour \<Rightarrow> fsnode option \<Rightarrow> analysis" where
  "detect_project_type_wizard lw fl fs =
     detect_from_files_wizard lw fl (read_text fl fs) (scan_files fl fs)"

text \<open>
  The callers check the path before they build the analyzer: the route \<open>/api/analyze\<close> of
  the web application answers with an error, the wizard's \<open>main\<close> prints one and leaves
  with \<open>sys.exit(1)\<close>.
\<close>

datatype path_error = PathNotFound string | NotAFolder string

definition analyze_project ::
  "(string \<Rightarrow> string) \<Rightarrow> flavour \<Rightarrow> string \<Rightarrow> fsnode option \<Rightarrow>
     path_error + analysis_web \<times> string list" where
  "analyze_project lw fl root fs =
     (case fs of
        None \<Rightarrow> Inl (PathNotFound root)
      | Some node \<Rightarrow>
          if \<not> is_dir node then Inl (NotAFolder root)
          else Inr (detect_project_type_web lw fl root fs, scan_files fl fs))"

definition main_analyze ::
  "(string \<Rightarrow> string) \<Rightarrow> flavour \<Rightarrow> string \<Rightarrow> fsnode option \<Rightarrow> path_error + analysis" where
  "main_analyze lw fl root fs =
     (case fs of
        None \<Rightarrow> Inl (PathNotFound root)
      | Some node \<Rightarrow>
          if \<not> is_dir node then Inl (NotAFolder root)
          else Inr (detect_project_type_wizard lw fl fs))"

section \<open>ConfigGenerator\<close>

definition newline :: string where
  "newline = [CHR 0x0A]"

definition quoted :: "string \<Rightarrow> string" where
  "quoted s = [CHR 0x22] @ s @ [CHR 0x22]"

text \<open>Truth value and f-string rendering of an \<open>Optional[str]\<close>.\<close>

definition truthy :: "string option \<Rightarrow> bool" where
  "truthy v = (case v of None \<Rightarrow> False | Some s \<Rightarrow> s \<noteq> [])"

definition fmt :: "string option \<Rightarrow> string" where
  "fmt v = (case v of None \<Rightarrow> ''None'' | Some s \<Rightarrow> s)"

definition redirect_lines :: "string list" where
  "redirect_lines =
     [''[[redirects]]'',
      ''  from = '' @ quoted ''/api/*'',
      ''  to = '' @ quoted ''/.netlify/functions/:splat'',
      ''  status = 200'']"

definition generate_netlify_toml_web ::
  "string \<Rightarrow> string option \<Rightarrow> string option \<Rightarrow> string \<Rightarrow> string" where
  "generate_netlify_toml_web publish functions command python_version =
     (let l0 = [''[build]''];
          l1 = (if truthy functions then l0 @ [''  functions = '' @ quoted (fmt functions)] else l0);
          l2 = l1 @ [''  publish = '' @ quoted publish];
          l3 = (if truthy command then l2 @ [''  command = '' @ quoted (fmt command)] else l2);
          l4 = (if truthy functions
                then l3 @ [[], ''[build.environment]'',
                           ''  PYTHON_VERSION = '' @ quoted python_version, []] @ redirect_lines
                else l3)
      in join newline l4 @ newline)"

definition generate_netlify_toml_wizard ::
  "analysis \<Rightarrow> string \<Rightarrow> string option \<Rightarrow> string option \<Rightarrow> string \<Rightarrow> string" where
  "generate_netlify_toml_wizard self_analysis publish functions command python_version =
     (let l0 = [''[build]''];
          l1 = (if truthy functions then l0 @ [''  functions = '' @ quoted (fmt functions)] else l0);
          l2 = l1 @ [''  publish = '' @ quoted publish];
          l3 = (if truthy command then l2 @ [''  command = '' @ quoted (fmt command)] else l2);
          l4 = (if has_python self_analysis \<and> truthy functions
                then l3 @ [[], ''[functions]'', ''  python_version = '' @ quoted python_version]
                else l3);
          l5 = (if truthy functions then l4 @ [[]] @ redirect_lines else l4)
      in join newline l5 @ newline)"

text \<open>The ignore file: the lines of the triple-quoted literal, each ended by a newline.\<close>

definition gitignore_secrets :: string where
  "gitignore_secrets =
     ''# '' @ [CHR 0xE7, CHR 0x92, CHR 0xB0, CHR 0xE5, CHR 0xA2, CHR 0x83, CHR 0xE8, CHR 0xAE,
             CHR 0x8A, CHR 0xE6, CHR 0x95, CHR 0xB8, CHR 0xEF, CHR 0xBC, CHR 0x88, CHR 0xE5,
             CHR 0x90, CHR 0xAB, CHR 0xE6, CHR 0x95, CHR 0x8F, CHR 0xE6, CHR 0x84, CHR 0x9F,
             CHR 0xE8, CHR 0xB3, CHR 0x87, CHR 0xE8, CHR 0xA8, CHR 0x8A, CHR 0xEF, CHR 0xBC,
             CHR 0x89]"

definition gitignore_cache :: string where
  "gitignore_cache =
     ''# Netlify '' @ [CHR 0xE6, CHR 0x9C, CHR 0xAC, CHR 0xE5, CHR 0x9C, CHR 0xB0,
                     CHR 0xE5, CHR 0xBF, CHR 0xAB, CHR 0xE5, CHR 0x8F, CHR 0x96]"

definition gitignore_system :: string where
  "gitignore_system =
     ''# '' @ [CHR 0xE7, CHR 0xB3, CHR 0xBB, CHR 0xE7, CHR 0xB5, CHR 0xB1,
             CHR 0xE6, CHR 0xAA, CHR 0x94, CHR 0xE6, CHR 0xA1, CHR 0x88]"

definition generate_gitignore_web :: string where
  "generate_gitignore_web =
     concat (map (\<lambda>l. l @ newline)
       [gitignore_secrets, ''.env'', ''.env.local'', ''.env.production'', [],
        gitignore_cache, ''.netlify/'', [],
        ''# Python'', ''__pycache__/'', ''*.py[cod]'', ''venv/'', ''.venv/'', [],
        ''# Node.js'', ''node_modules/'', [],
        gitignore_system, ''.DS_Store'', ''Thumbs.db'', [],
        ''# IDE'', ''.vscode/'', ''.idea/''])"

definition generate_gitignore_wizard :: string where
  "generate_gitignore_wizard =
     concat (map (\<lambda>l. l @ newline)
       [gitignore_secrets, ''.env'', ''.env.local'', ''.env.production'', [],
        gitignore_cache, ''.netlify/'', [],
        ''# Python'', ''__pycache__/'', ''*.py[cod]'', ''*$py.class'', ''venv/'', ''.venv/'',
        ''*.egg-info/'', [],
        ''# Node.js'', ''node_modules/'', [],
        gitignore_system, ''.DS_Store'', ''Thumbs.db'', [],
        ''# IDE'', ''.vscode/'', ''.idea/'', ''*.swp'', ''*.swo''])"

text \<open>The environment template.\<close>

definition env_header1 :: string where
  "env_header1 =
     ''# '' @ [CHR 0xE7, CHR 0x92, CHR 0xB0, CHR 0xE5, CHR 0xA2, CHR 0x83, CHR 0xE8, CHR 0xAE,
             CHR 0x8A, CHR 0xE6, CHR 0x95, CHR 0xB8, CHR 0xE7, CHR 0xAF, CHR 0x84, CHR 0xE4,
             CHR 0xBE, CHR 0x8B]"

definition env_header2 :: string where
  "env_header2 =
     ''# '' @ [CHR 0xE8, CHR 0xA4, CHR 0x87, CHR 0xE8, CHR 0xA3, CHR 0xBD, CHR 0xE6, CHR 0xAD,
             CHR 0xA4, CHR 0xE6, CHR 0xAA, CHR 0x94, CHR 0xE6, CHR 0xA1, CHR 0x88, CHR 0xE7,
             CHR 0x82, CHR 0xBA] @
     '' .env '' @ [CHR 0xE4, CHR 0xB8, CHR 0xA6, CHR 0xE5, CHR 0xA1, CHR 0xAB, CHR 0xE5, CHR 0x85,
                 CHR 0xA5, CHR 0xE7, CHR 0x9C, CHR 0x9F, CHR 0xE5, CHR 0xAF, CHR 0xA6, CHR 0xE7,
                 CHR 0x9A, CHR 0x84, CHR 0xE5, CHR 0x80, CHR 0xBC]"

definition env_footer :: string where
  "env_footer =
     ''# '' @ [CHR 0xE6, CHR 0xB3, CHR 0xA8, CHR 0xE6, CHR 0x84, CHR 0x8F, CHR 0xEF, CHR 0xBC,
             CHR 0x9A, CHR 0xE6, CHR 0xB0, CHR 0xB8, CHR 0xE9, CHR 0x81, CHR 0xA0, CHR 0xE4,
             CHR 0xB8, CHR 0x8D, CHR 0xE8, CHR 0xA6, CHR 0x81, CHR 0xE5, CHR 0xB0, CHR 0x87] @
     '' .env '' @ [CHR 0xE6, CHR 0xAA, CHR 0x94, CHR 0xE6, CHR 0xA1, CHR 0x88, CHR 0xE4, CHR 0xB8,
                 CHR 0x8A, CHR 0xE5, CHR 0x82, CHR 0xB3, CHR 0xE5, CHR 0x88, CHR 0xB0] @
     '' Git'' @ [CHR 0xEF, CHR 0xBC, CHR 0x81]"

definition descriptions_web :: "(string \<times> string) list" where
  "descriptions_web =
     [(''OPENAI_API_KEY'', ''# OpenAI API Key - https://platform.openai.com/api-keys''),
      (''GOOGLE_API_KEY'', ''# Google API Key (Gemini) - https://aistudio.google.com/app/apikey''),
      (''ANTHROPIC_API_KEY'', ''# Anthropic API Key - https://console.anthropic.com/''),
      (''DATABASE_URL'',
         ''# '' @ [CHR 0xE8, CHR 0xB3, CHR 0x87, CHR 0xE6, CHR 0x96, CHR 0x99, CHR 0xE5, CHR 0xBA,
                 CHR 0xAB, CHR 0xE9, CHR 0x80, CHR 0xA3, CHR 0xE7, CHR 0xB7, CHR 0x9A, CHR 0xE5,
                 CHR 0xAD, CHR 0x97, CHR 0xE4, CHR 0xB8, CHR 0xB2]),
      (''SECRET_KEY'',
         ''# '' @ [CHR 0xE6, CHR 0x87, CHR 0x89, CHR 0xE7, CHR 0x94, CHR 0xA8, CHR 0xE7, CHR 0xA8,
                 CHR 0x8B, CHR 0xE5, CHR 0xBC, CHR 0x8F, CHR 0xE5, CHR 0xAF, CHR 0x86, CHR 0xE9,
                 CHR 0x91, CHR 0xB0])]"

definition descriptions_wizard :: "(string \<times> string) list" where
  "descriptions_wizard =
     descriptions_web @
     [(''API_KEY'', ''# API '' @ [CHR 0xE9, CHR 0x87, CHR 0x91, CHR 0xE9, CHR 0x91, CHR 0xB0])]"

definition env_entry ::
  "(string \<times> string) list \<Rightarrow> (string \<Rightarrow> string) \<Rightarrow> string \<Rightarrow> string list" where
  "env_entry descriptions lw var =
     (case map_of descriptions var of None \<Rightarrow> [] | Some d \<Rightarrow> [d]) @
     [var @ ''=your_'' @ lw var @ ''_here'', []]"

definition generate_env_example ::
  "(string \<times> string) list \<Rightarrow> (string \<Rightarrow> string) \<Rightarrow> string list \<Rightarrow> string" where
  "generate_env_example descriptions lw env_vars =
     join newline
       ([env_header1, env_header2, []] @ concat (map (env_entry descriptions lw) env_vars) @
        [env_footer])"

definition generate_env_example_web :: "(string \<Rightarrow> string) \<Rightarrow> string list \<Rightarrow> string" where
  "generate_env_example_web = generate_env_example descriptions_web"

definition generate_env_example_wizard :: "(string \<Rightarrow> string) \<Rightarrow> string list \<Rightarrow> string" where
  "generate_env_example_wizard = generate_env_example descriptions_wizard"

text \<open>The dependency list.\<close>

definition requirements_placeholder :: string where
  "requirements_placeholder =
     ''# '' @ [CHR 0xE5, CHR 0x9C, CHR 0xA8, CHR 0xE6, CHR 0xAD, CHR 0xA4, CHR 0xE5, CHR 0x8A,
             CHR 0xA0, CHR 0xE5, CHR 0x85, CHR 0xA5, CHR 0xE4, CHR 0xBD, CHR 0xA0, CHR 0xE9,
             CHR 0x9C, CHR 0x80, CHR 0xE8, CHR 0xA6, CHR 0x81, CHR 0xE7, CHR 0x9A, CHR 0x84] @
     '' Python '' @ [CHR 0xE5, CHR 0xA5, CHR 0x97, CHR 0xE4, CHR 0xBB, CHR 0xB6]"

definition generate_requirements_web :: "string list \<Rightarrow> string" where
  "generate_requirements_web env_vars =
     (let p0 = [];
          p1 = (if ''OPENAI_API_KEY'' \<in> set env_vars then p0 @ [''openai''] else p0);
          p2 = (if ''GOOGLE_API_KEY'' \<in> set env_vars then p1 @ [''google-generativeai''] else p1);
          p3 = (if ''ANTHROPIC_API_KEY'' \<in> set env_vars then p2 @ [''anthropic''] else p2);
          p4 = (if p3 = [] then p3 @ [requirements_placeholder] else p3)
      in join newline p4 @ newline)"

definition generate_requirements_wizard :: "analysis \<Rightarrow> string" where
  "generate_requirements_wizard self_analysis =
     (let p0 = [];
          env_vars = env_vars_needed self_analysis;
          p1 = (if ''OPENAI_API_KEY'' \<in> set env_vars then p0 @ [''openai''] else p0);
          p2 = (if ''GOOGLE_API_KEY'' \<in> set env_vars then p1 @ [''google-generativeai''] else p1);
          p3 = (if ''ANTHROPIC_API_KEY'' \<in> set env_vars then p2 @ [''anthropic''] else p2);
          p4 = (if p3 = [] then p3 @ [requirements_placeholder] else p3)
      in join newline p4 @ newline)"

section \<open>Deployer\<close>

text \<open>
  The outcome of \<open>subprocess.run\<close>: the exit code with the captured output and error
  text, or an exception with its message.
\<close>

datatype proc = Completed int string string | Raised string

record cmd_result =
  success :: bool
  stdout :: string
  stderr :: string

record deploy_response = cmd_result +
  url :: "string option"

definition run_command :: "proc \<Rightarrow> cmd_result" where
  "run_command p =
     (case p of
        Completed returncode out err \<Rightarrow> \<lparr>success = (returncode = 0), stdout = out, stderr = err\<rparr>
      | Raised e \<Rightarrow> \<lparr>success = False, stdout = [], stderr = e\<rparr>)"

text \<open>
  White space as \<open>str.split()\<close> and the pattern \<open>\s\<close> see it: the characters for which
  \<open>str.isspace()\<close> holds, here in UTF-8. No one of them begins another, and none begins
  with a byte that stands inside another character, so \<open>space_at s\<close>, the length of the
  white-space character at the head of \<open>s\<close> (0 when there is none), is well defined.
\<close>

definition white_space :: "string list" where
  "white_space =
     [[CHR 0x09], [CHR 0x0A], [CHR 0x0B], [CHR 0x0C], [CHR 0x0D],
      [CHR 0x1C], [CHR 0x1D], [CHR 0x1E], [CHR 0x1F], [CHR 0x20],
      [CHR 0xC2, CHR 0x85], [CHR 0xC2, CHR 0xA0], [CHR 0xE1, CHR 0x9A, CHR 0x80],
      [CHR 0xE2, CHR 0x80, CHR 0x80], [CHR 0xE2, CHR 0x80, CHR 0x81],
      [CHR 0xE2, CHR 0x80, CHR 0x82], [CHR 0xE2, CHR 0x80, CHR 0x83],
      [CHR 0xE2, CHR 0x80, CHR 0x84], [CHR 0xE2, CHR 0x80, CHR 0x85],
      [CHR 0xE2, CHR 0x80, CHR 0x86], [CHR 0xE2, CHR 0x80, CHR 0x87],
      [CHR 0xE2, CHR 0x80, CHR 0x88], [CHR 0xE2, CHR 0x80, CHR 0x89],
      [CHR 0xE2, CHR 0x80, CHR 0x8A], [CHR 0xE2, CHR 0x80, CHR 0xA8],
      [CHR 0xE2, CHR 0x80, CHR 0xA9], [CHR 0xE2, CHR 0x80, CHR 0xAF],
      [CHR 0xE2, CHR 0x81, CHR 0x9F], [CHR 0xE3, CHR 0x80, CHR 0x80]]"

definition space_at :: "string \<Rightarrow> nat" where
  "space_at s = (case find (\<lambda>w. prefix w s) white_space of None \<Rightarrow> 0 | Some w \<Rightarrow> length w)"

text \<open>
  \<open>s.split()\<close>: the maximal runs of characters that are not white space. \<open>cur\<close> is the
  run being read, \<open>k\<close> the number of bytes still to pass of a white-space character.
\<close>

fun split_ws_from :: "string \<Rightarrow> nat \<Rightarrow> string \<Rightarrow> string list" where
  "split_ws_from cur k [] = (if cur = [] then [] else [cur])"
| "split_ws_from cur k (c # cs) =
     (if 0 < k then split_ws_from cur (k - 1) cs
      else if 0 < space_at (c # cs)
           then (if cur = [] then [] else [cur]) @ split_ws_from [] (space_at (c # cs) - 1) cs
           else split_ws_from (cur @ [c]) 0 cs)"

definition split_ws :: "string \<Rightarrow> string list" where
  "split_ws s = split_ws_from [] 0 s"

text \<open>The characters of \<open>s\<close> up to the first white space: what \<open>[^\s]*\<close> takes.\<close>

fun run_of :: "string \<Rightarrow> string" where
  "run_of [] = []"
| "run_of (c # cs) = (if 0 < space_at (c # cs) then [] else c # run_of cs)"

text \<open>
  \<open>re.findall(r'https://[^\s]+netlify[^\s]*', line)\<close>. A match at the head of \<open>s\<close> is
  \<open>https://\<close> and the whole run of characters up to the next white space, when \<open>netlify\<close>
  stands in that run after at least one character; the search goes on behind a match.
\<close>

definition match_at :: "string \<Rightarrow> string option" where
  "match_at s =
     (if prefix ''https://'' s then
        (let run = run_of (drop 8 s)
         in if run \<noteq> [] \<and> str_in ''netlify'' (tl run) then Some (''https://'' @ run) else None)
      else None)"

function findall_netlify :: "string \<Rightarrow> string list" where
  "findall_netlify [] = []"
| "findall_netlify (c # cs) =
     (case match_at (c # cs) of
        None \<Rightarrow> findall_netlify cs
      | Some m \<Rightarrow> m # findall_netlify (drop (length m) (c # cs)))"
  by pat_completeness auto
termination
proof (relation "measure length")
  show "wf (measure length)"
    by simp
next
  fix c :: char and cs :: string
  show "(cs, c # cs) \<in> measure length"
    by simp
next
  fix c :: char and cs :: string and m :: string
  assume "match_at (c # cs) = Some m"
  then have "m \<noteq> []"
    by (auto simp: match_at_def Let_def split: if_splits)
  then have "0 < length m"
    by simp
  then show "(drop (length m) (c # cs), c # cs) \<in> measure length"
    by simp
qed

text \<open>The body of \<open>for line in all_output.split('\n')\<close> on the pair \<open>(url, deploy_url)\<close>.\<close>

definition scan_line ::
  "(string \<Rightarrow> string) \<Rightarrow> string \<Rightarrow> string option \<times> string option \<Rightarrow>
     string option \<times> string option" where
  "scan_line lw line st =
     (let line_lower = lw line in
      if str_in ''website'' line_lower \<and> str_in ''url'' line_lower then
        (case split_ws line of
           [] \<Rightarrow> st
         | p # ps \<Rightarrow> (Some (last (p # ps)), snd st))
      else if str_in ''deploy'' line_lower \<and> str_in ''url'' line_lower then
        (case split_ws line of
           [] \<Rightarrow> st
         | p # ps \<Rightarrow> (fst st, Some (last (p # ps))))
      else if str_in ''https://'' line \<and> str_in ''netlify'' line then
        (case findall_netlify line of
           [] \<Rightarrow> st
         | u # us \<Rightarrow> (Some u, snd st))
      else st)"

text \<open>
  The route \<open>/api/deploy\<close> of the web application, given the outcome of the command it
  runs (\<open>netlify deploy\<close>, with \<open>--prod\<close> for a production deploy).
\<close>

definition deploy :: "(string \<Rightarrow> string) \<Rightarrow> proc \<Rightarrow> deploy_response" where
  "deploy lw p =
     (let result = run_command p;
          all_output = stdout result @ newline @ stderr result;
          st = fold (scan_line lw) (split_on CHR 0x0A all_output) (None, None);
          final_url = (if truthy (fst st) then fst st else snd st);
          is_success = (success result \<or> final_url \<noteq> None);
          is_success2 = (if str_in ''unsettled top-level await'' (stderr result) \<and> truthy final_url
                         then True else is_success)
      in \<lparr>success = is_success2, stdout = stdout result, stderr = stderr result,
          url = final_url\<rparr>)"

text \<open>
  The wizard's \<open>deploy_preview\<close> and \<open>deploy_production\<close>: the first line of the output
  naming the URL, read only when the exit code is 0. An exception, also the \<open>IndexError\<close>
  of \<open>line.split()[-1]\<close>, is caught and gives \<open>None\<close>.
\<close>

fun first_url_line :: "string list \<Rightarrow> string list \<Rightarrow> string option" where
  "first_url_line labels [] = None"
| "first_url_line labels (line # rest) =
     (if list_ex (\<lambda>l. str_in l line) labels then
        (case split_ws line of
           [] \<Rightarrow> None
         | p # ps \<Rightarrow> Some (last (p # ps)))
      else first_url_line labels rest)"

definition deploy_preview :: "proc \<Rightarrow> string option" where
  "deploy_preview p =
     (case p of
        Raised e \<Rightarrow> None
      | Completed returncode out err \<Rightarrow>
          if returncode = 0
          then first_url_line [''Website Draft URL'', ''Website draft URL''] (split_on CHR 0x0A out)
          else None)"

definition deploy_production :: "proc \<Rightarrow> string option" where
  "deploy_production p =
     (case p of
        Raised e \<Rightarrow> None
      | Completed returncode out err \<Rightarrow>
          if returncode = 0
          then first_url_line [''Website URL''] (split_on CHR 0x0A out)
          else None)"


section \<open>Notions used to state the properties\<close>

text \<open>
  The paths \<open>os.path.relpath\<close> returns for a file below the start directory: names joined
  by \<open>os.sep\<close>, with no empty name and no \<open>.\<close> among them. A name on Windows holds neither
  \<open>/\<close> nor a colon. On these paths \<open>path_parts\<close> is the list of the names.
\<close>

definition normal_rel_path :: "flavour \<Rightarrow> string \<Rightarrow> bool" where
  "normal_rel_path fl f \<longleftrightarrow>
     list_all (\<lambda>s. s \<noteq> [] \<and> s \<noteq> ''.'') (split_on (os_sep fl) f) \<and>
     (fl = Windows \<longrightarrow> CHR ''/'' \<notin> set f \<and> CHR '':'' \<notin> set f)"

text \<open>
  The paths on which \<open>path_parts\<close> is \<open>Path(f).parts\<close>: every path on a POSIX system, and
  on Windows the relative paths above, which have no drive letter and no network share.
  The file lists of the analyzer hold such paths only (see the last section).
\<close>

definition modelled_path :: "flavour \<Rightarrow> string \<Rightarrow> bool" where
  "modelled_path fl f \<longleftrightarrow> fl = Posix \<or> normal_rel_path fl f"

text \<open>
  Lines of the deploy output. A keyword line holds the keyword and \<open>url\<close> once it is
  lower-cased. A line has a Netlify URL when \<open>https://\<close> is followed, with no white space
  in between, by at least one character and then \<open>netlify\<close>. The three kinds below are
  the three branches of the loop in \<open>/api/deploy\<close>, each without the lines of the branches
  before it; the first two ask for a token, as the loop does (\<open>if parts:\<close>).
\<close>

definition keyword_line :: "(string \<Rightarrow> string) \<Rightarrow> string \<Rightarrow> string \<Rightarrow> bool" where
  "keyword_line lw kw line \<longleftrightarrow> str_in kw (lw line) \<and> str_in ''url'' (lw line)"

definition spaceless :: "string \<Rightarrow> bool" where
  "spaceless u \<longleftrightarrow> list_all (\<lambda>w. \<not> sublist w u) white_space"

definition has_netlify_url :: "string \<Rightarrow> bool" where
  "has_netlify_url line \<longleftrightarrow>
     (\<exists>a u b. line = a @ ''https://'' @ u @ b \<and> spaceless u \<and>
        (\<exists>x y z. u = x # y @ ''netlify'' @ z))"

definition website_line :: "(string \<Rightarrow> string) \<Rightarrow> string \<Rightarrow> bool" where
  "website_line lw line \<longleftrightarrow> keyword_line lw ''website'' line \<and> split_ws line \<noteq> []"

definition deploy_line :: "(string \<Rightarrow> string) \<Rightarrow> string \<Rightarrow> bool" where
  "deploy_line lw line \<longleftrightarrow>
     \<not> keyword_line lw ''website'' line \<and> keyword_line lw ''deploy'' line \<and> split_ws line \<noteq> []"

definition netlify_line :: "(string \<Rightarrow> string) \<Rightarrow> string \<Rightarrow> bool" where
  "netlify_line lw line \<longleftrightarrow>
     \<not> keyword_line lw ''website'' line \<and> \<not> keyword_line lw ''deploy'' line \<and>
     has_netlify_url line"

text \<open>
  A tree as a file system holds it: every entry has a name that is not empty, holds no
  separator (and on Windows no colon) and is neither \<open>.\<close> nor \<open>..\<close>.
\<close>

definition valid_name :: "flavour \<Rightarrow> string \<Rightarrow> bool" where
  "valid_name fl n \<longleftrightarrow>
     n \<noteq> [] \<and> n \<noteq> ''.'' \<and> n \<noteq> ''..'' \<and> CHR ''/'' \<notin> set n \<and>
     (fl = Windows \<longrightarrow> CHR 0x5C \<notin> set n \<and> CHR '':'' \<notin> set n)"

fun valid_tree :: "flavour \<Rightarrow> fsnode \<Rightarrow> bool" where
  "valid_tree fl (File c) = True"
| "valid_tree fl (Dir es) = (\<forall>e\<in>set es. valid_name fl (fst e) \<and> valid_tree fl (snd e))"

section \<open>Properties of the classifier\<close>

subsection \<open>What the pass over the file list leaves behind\<close>

lemma flag_file_has_node:
  "has_node (fold (flag_file lw) files a) \<longleftrightarrow>
     has_node a \<or> (\<exists>f\<in>set files. lw f = ''package.json'')"
  by (induction files arbitrary: a) (auto simp: flag_file_def Let_def)

lemma flag_file_has_package_json:
  "has_package_json (fold (flag_file lw) files a) \<longleftrightarrow>
     has_package_json a \<or> (\<exists>f\<in>set files. lw f = ''package.json'')"
  by (induction files arbitrary: a) (auto simp: flag_file_def Let_def)

lemma flag_file_has_python:
  "has_python (fold (flag_file lw) files a) \<longleftrightarrow>
     has_python a \<or> (\<exists>f\<in>set files. endswith (lw f) ''.py'')"
  by (induction files arbitrary: a) (auto simp: flag_file_def Let_def)

lemma flag_file_python_files:
  "python_files (fold (flag_file lw) files a) =
     python_files a @ filter (\<lambda>f. endswith (lw f) ''.py'') files"
  by (induction files arbitrary: a) (auto simp: flag_file_def Let_def)

lemma flag_file_keeps:
  "type (fold (flag_file lw) files a) = type a"
  "functions_dir (fold (flag_file lw) files a) = functions_dir a"
  "build_command (fold (flag_file lw) files a) = build_command a"
  "publish_dir (fold (flag_file lw) files a) = publish_dir a"
  "env_vars_needed (fold (flag_file lw) files a) = env_vars_needed a"
  "analysis.more (fold (flag_file lw) files a) = analysis.more a"
  by (induction files arbitrary: a) (auto simp: flag_file_def Let_def)

lemma python_loop_web_flags:
  "has_node (python_loop_web lw fl pf a) = has_node a"
  "has_package_json (python_loop_web lw fl pf a) = has_package_json a"
  "has_python (python_loop_web lw fl pf a) = has_python a"
  "build_command (python_loop_web lw fl pf a) = build_command a"
  by (induction lw fl pf a rule: python_loop_web.induct; simp add: Let_def split: option.splits)+

lemma python_loop_wizard_flags:
  "has_node (python_loop_wizard lw fl pf a) = has_node a"
  "has_package_json (python_loop_wizard lw fl pf a) = has_package_json a"
  "has_python (python_loop_wizard lw fl pf a) = has_python a"
  "build_command (python_loop_wizard lw fl pf a) = build_command a"
  by (induction lw fl pf a rule: python_loop_wizard.induct; simp add: Let_def split: option.splits)+

subsection \<open>The Python rules in closed form\<close>

lemma find_functions_part_eq:
  "find_functions_part lw fl parts i rest =
     (if \<exists>p\<in>set rest. str_in ''functions'' (lw p)
      then Some (path_str fl
                  (take (i + length (takeWhile (\<lambda>p. \<not> str_in ''functions'' (lw p)) rest) + 1) parts))
      else None)"
  by (induction rest arbitrary: i) auto

lemma python_loop_web_type:
  "type (python_loop_web lw fl pf a) =
     (if \<exists>f\<in>set pf. qualifies lw f then ''python-functions'' else type a)"
  by (induction lw fl pf a rule: python_loop_web.induct)
     (simp_all add: Let_def split: option.splits)

lemma python_loop_wizard_type:
  "type (python_loop_wizard lw fl pf a) =
     (if \<exists>f\<in>set pf. qualifies lw f then ''python-functions'' else type a)"
  by (induction lw fl pf a rule: python_loop_wizard.induct)
     (simp_all add: Let_def split: option.splits)

lemma python_loop_web_functions_dir:
  "functions_dir (python_loop_web lw fl pf a) =
     (case find (qualifies lw) pf of
        None \<Rightarrow> functions_dir a
      | Some f \<Rightarrow> (case find_functions_part lw fl (path_parts fl f) 0 (path_parts fl f) of
                    None \<Rightarrow> functions_dir a
                  | Some d \<Rightarrow> Some d))"
  by (induction lw fl pf a rule: python_loop_web.induct)
     (simp_all add: Let_def split: option.splits)

lemma python_loop_wizard_functions_dir:
  "functions_dir (python_loop_wizard lw fl pf a) =
     (case find (qualifies lw) pf of
        None \<Rightarrow> functions_dir a
      | Some f \<Rightarrow> (case find_functions_part lw fl (path_parts fl f) 0 (path_parts fl f) of
                    None \<Rightarrow> functions_dir a
                  | Some d \<Rightarrow> Some d))"
  by (induction lw fl pf a rule: python_loop_wizard.induct)
     (simp_all add: Let_def split: option.splits)

lemma web_functions_dir:
  "functions_dir (detect_from_files_web lw fl root rd files) =
     (case find (qualifies lw) (filter (\<lambda>f. endswith (lw f) ''.py'') files) of
        None \<Rightarrow> None
      | Some f \<Rightarrow> find_functions_part lw fl (path_parts fl f) 0 (path_parts fl f))"
  by (auto simp: detect_from_files_web_def Let_def flag_file_keeps flag_file_python_files
      flag_file_has_python python_loop_web_functions_dir filter_empty_conv
      split: option.splits)

lemma wizard_functions_dir:
  "functions_dir (detect_from_files_wizard lw fl rd files) =
     (case find (qualifies lw) (filter (\<lambda>f. endswith (lw f) ''.py'') files) of
        None \<Rightarrow> None
      | Some f \<Rightarrow> find_functions_part lw fl (path_parts fl f) 0 (path_parts fl f))"
  by (auto simp: detect_from_files_wizard_def Let_def flag_file_keeps flag_file_python_files
      flag_file_has_python python_loop_wizard_functions_dir filter_empty_conv
      split: option.splits)

lemma web_type:
  "type (detect_from_files_web lw fl root rd files) =
     (if \<exists>f\<in>set files. lw f = ''package.json'' then ''node-project''
      else if \<exists>f\<in>set files. endswith (lw f) ''.py'' then ''python-functions''
      else ''static'')"
  by (simp add: detect_from_files_web_def Let_def flag_file_keeps flag_file_python_files
      flag_file_has_python flag_file_has_node flag_file_has_package_json
      python_loop_web_flags python_loop_web_type)

lemma wizard_type:
  "type (detect_from_files_wizard lw fl rd files) =
     (if \<exists>f\<in>set files. lw f = ''package.json'' then ''node-project''
      else if \<exists>f\<in>set files. endswith (lw f) ''.py'' then ''python-functions''
      else ''static'')"
  by (simp add: detect_from_files_wizard_def Let_def flag_file_keeps flag_file_python_files
      flag_file_has_python flag_file_has_node flag_file_has_package_json
      python_loop_wizard_flags python_loop_wizard_type)

lemma find_first_qualifying:
  assumes "\<forall>g\<in>set xs. Q g \<longrightarrow> \<not> P g" and "Q f" and "P f"
  shows "find P (filter Q (xs @ f # ys)) = Some f"
  using assms by (induction xs) auto

lemma functions_dir_evidence:
  assumes f: "find (qualifies lw) (filter (\<lambda>f. endswith (lw f) ''.py'') files) = Some f"
    and d: "find_functions_part lw fl (path_parts fl f) 0 (path_parts fl f) = Some d"
  shows "\<exists>f\<in>set files. endswith (lw f) ''.py'' \<and>
           (str_in ''functions'' (lw f) \<or> str_in ''netlify'' (lw f)) \<and>
           (\<exists>p\<in>set (path_parts fl f). str_in ''functions'' (lw p))"
proof -
  from f have mem: "f \<in> set files" and py: "endswith (lw f) ''.py''" and q: "qualifies lw f"
    by (auto simp: find_Some_iff in_set_conv_nth dest!: nth_mem)
  from d have "\<exists>p\<in>set (path_parts fl f). str_in ''functions'' (lw p)"
    by (auto simp: find_functions_part_eq split: if_splits)
  with mem py q show ?thesis
    unfolding qualifies_def by blast
qed

subsection \<open>The Node rule\<close>

text \<open>
  C1, as stated, fails for a \<open>package.json\<close> in a subdirectory. The test is
  \<open>file_lower == 'package.json'\<close> on the whole relative path, so only a \<open>package.json\<close>
  directly under the project root makes the project a Node project; with one further
  down, the Python rules decide.
\<close>

theorem nested_package_json_is_not_node:
  "endswith ''sub/package.json'' ''/package.json'' \<and>
   type (detect_from_files_web ascii_lower Posix ''/srv/site'' (\<lambda>f. None)
           [''sub/package.json'', ''functions/a.py'']) = ''python-functions'' \<and>
   build_command (detect_from_files_web ascii_lower Posix ''/srv/site'' (\<lambda>f. None)
           [''sub/package.json'', ''functions/a.py'']) = None \<and>
   type (detect_from_files_wizard ascii_lower Posix (\<lambda>f. None)
           [''sub/package.json'', ''functions/a.py'']) = ''python-functions'' \<and>
   build_command (detect_from_files_wizard ascii_lower Posix (\<lambda>f. None)
           [''sub/package.json'', ''functions/a.py'']) = None"
  by code_simp

text \<open>
  C1, amended. Whenever the file list holds an entry whose whole relative path lower-cases
  to \<open>package.json\<close>, that is a \<open>package.json\<close> directly under the project root, both
  programs classify the project as \<open>node-project\<close> and set the build command to
  \<open>npm run build\<close>, whatever Python files the list holds besides: the Node rule runs
  after the Python rules and overwrites the type.
\<close>

theorem node_rule_overrides:
  assumes "f \<in> set files" and "lw f = ''package.json''"
  shows "type (detect_from_files_web lw fl root rd files) = ''node-project'' \<and>
         build_command (detect_from_files_web lw fl root rd files) = Some ''npm run build'' \<and>
         type (detect_from_files_wizard lw fl rd files) = ''node-project'' \<and>
         build_command (detect_from_files_wizard lw fl rd files) = Some ''npm run build''"
proof -
  have ex: "\<exists>f\<in>set files. lw f = ''package.json''"
    using assms by blast
  show ?thesis
    using ex
    by (simp add: detect_from_files_web_def detect_from_files_wizard_def Let_def
        flag_file_has_node flag_file_has_package_json python_loop_web_flags
        python_loop_wizard_flags)
qed

theorem node_rule_overrides_witness:
  "''Package.JSON'' \<in> set [''functions/main.py'', ''Package.JSON''] \<and>
   ascii_lower ''Package.JSON'' = ''package.json'' \<and>
   type (detect_from_files_web ascii_lower Posix ''/srv/site'' (\<lambda>f. None)
           [''functions/main.py'', ''Package.JSON'']) = ''node-project'' \<and>
   build_command (detect_from_files_web ascii_lower Posix ''/srv/site'' (\<lambda>f. None)
           [''functions/main.py'', ''Package.JSON'']) = Some ''npm run build'' \<and>
   type (detect_from_files_wizard ascii_lower Posix (\<lambda>f. None)
           [''functions/main.py'', ''Package.JSON'']) = ''node-project'' \<and>
   build_command (detect_from_files_wizard ascii_lower Posix (\<lambda>f. None)
           [''functions/main.py'', ''Package.JSON'']) = Some ''npm run build''"
proof -
  have m: "''Package.JSON'' \<in> set [''functions/main.py'', ''Package.JSON'']"
    by simp
  have l: "ascii_lower ''Package.JSON'' = ''package.json''"
    by (simp add: ascii_lower_def lower_char_def)
  note t = node_rule_overrides [of "''Package.JSON''" _ ascii_lower Posix "''/srv/site''" "\<lambda>f. None", OF m l]
  show ?thesis
    using m l t by - (elim conjE, intro conjI, assumption+)
qed

subsection \<open>The functions directory and the type\<close>

text \<open>
  C2, as stated, fails: the Node rule overwrites the type and leaves \<open>functions_dir\<close> as
  the Python rule set it. A list with a Python file under \<open>functions\<close> and a
  \<open>package.json\<close> ends with type \<open>node-project\<close> and \<open>functions_dir\<close> set.
\<close>

theorem functions_dir_kept_under_node_type:
  "functions_dir (detect_from_files_web ascii_lower Posix ''/srv/site'' (\<lambda>f. None)
       [''functions/a.py'', ''package.json'']) = Some ''functions'' \<and>
   type (detect_from_files_web ascii_lower Posix ''/srv/site'' (\<lambda>f. None)
       [''functions/a.py'', ''package.json'']) = ''node-project'' \<and>
   functions_dir (detect_from_files_wizard ascii_lower Posix (\<lambda>f. None)
       [''functions/a.py'', ''package.json'']) = Some ''functions'' \<and>
   type (detect_from_files_wizard ascii_lower Posix (\<lambda>f. None)
       [''functions/a.py'', ''package.json'']) = ''node-project'' \<and>
   ''node-project'' \<noteq> ''python-functions''"
  by code_simp

text \<open>
  C2, amended. \<open>functions_dir\<close> is set only if the list holds a Python file whose
  lower-cased path contains \<open>functions\<close> or \<open>netlify\<close> and one of whose path parts,
  lower-cased, contains \<open>functions\<close>. The type is then \<open>node-project\<close> when an entry of the
  list lower-cases to \<open>package.json\<close> (a \<open>package.json\<close> directly under the root), and
  \<open>python-functions\<close> when none does. The list holds paths as the scan gives them: any
  path on a POSIX system, relative paths without drive letter on Windows.
\<close>

theorem functions_dir_needs_python_evidence:
  assumes paths: "list_all (modelled_path fl) files"
    and set: "functions_dir (detect_from_files_web lw fl root rd files) \<noteq> None \<or>
              functions_dir (detect_from_files_wizard lw fl rd files) \<noteq> None"
  shows "(\<exists>f\<in>set files. endswith (lw f) ''.py'' \<and>
            (str_in ''functions'' (lw f) \<or> str_in ''netlify'' (lw f)) \<and>
            (\<exists>p\<in>set (path_parts fl f). str_in ''functions'' (lw p))) \<and>
         type (detect_from_files_web lw fl root rd files) =
           (if \<exists>g\<in>set files. lw g = ''package.json'' then ''node-project''
            else ''python-functions'') \<and>
         type (detect_from_files_wizard lw fl rd files) =
           (if \<exists>g\<in>set files. lw g = ''package.json'' then ''node-project''
            else ''python-functions'')"
proof -
  from set obtain f d
    where "find (qualifies lw) (filter (\<lambda>f. endswith (lw f) ''.py'') files) = Some f"
      and "find_functions_part lw fl (path_parts fl f) 0 (path_parts fl f) = Some d"
    by (auto simp: web_functions_dir wizard_functions_dir split: option.splits)
  then have ev: "\<exists>f\<in>set files. endswith (lw f) ''.py'' \<and>
            (str_in ''functions'' (lw f) \<or> str_in ''netlify'' (lw f)) \<and>
            (\<exists>p\<in>set (path_parts fl f). str_in ''functions'' (lw p))"
    by (rule functions_dir_evidence)
  then have py: "\<exists>f\<in>set files. endswith (lw f) ''.py''"
    by blast
  show ?thesis
    using ev py by (simp add: web_type wizard_type)
qed

theorem functions_dir_needs_python_evidence_witness:
  "list_all (modelled_path Posix) [''index.html'', ''api/Functions/hello.py''] \<and>
   functions_dir (detect_from_files_web ascii_lower Posix ''/srv/site'' (\<lambda>f. None)
       [''index.html'', ''api/Functions/hello.py'']) \<noteq> None \<and>
   (\<exists>f\<in>set [''index.html'', ''api/Functions/hello.py''].
      endswith (ascii_lower f) ''.py'' \<and>
      (str_in ''functions'' (ascii_lower f) \<or> str_in ''netlify'' (ascii_lower f)) \<and>
      (\<exists>p\<in>set (path_parts Posix f). str_in ''functions'' (ascii_lower p))) \<and>
   type (detect_from_files_web ascii_lower Posix ''/srv/site'' (\<lambda>f. None)
       [''index.html'', ''api/Functions/hello.py'']) = ''python-functions'' \<and>
   type (detect_from_files_wizard ascii_lower Posix (\<lambda>f. None)
       [''index.html'', ''api/Functions/hello.py'']) = ''python-functions''"
proof -
  have h: "functions_dir (detect_from_files_web ascii_lower Posix ''/srv/site'' (\<lambda>f. None)
             [''index.html'', ''api/Functions/hello.py'']) \<noteq> None"
    by code_simp
  have n: "\<not> (\<exists>g\<in>set [''index.html'', ''api/Functions/hello.py''].
                 ascii_lower g = ''package.json'')"
    by (simp add: ascii_lower_def lower_char_def)
  have m: "list_all (modelled_path Posix) [''index.html'', ''api/Functions/hello.py'']"
    by (simp add: modelled_path_def)
  note t = functions_dir_needs_python_evidence
      [of Posix "[''index.html'', ''api/Functions/hello.py'']" ascii_lower "''/srv/site''" "\<lambda>f. None",
       OF m disjI1 [OF h]]
  show ?thesis
    using m h n t by (simp del: set_simps)
qed

subsection \<open>Splitting and joining\<close>

lemma split_on_not_Nil: "split_on c s \<noteq> []"
  by (induction s) (auto split: list.splits)

lemma split_on_no_sep: "x \<in> set (split_on c s) \<Longrightarrow> c \<notin> set x"
  by (induction s arbitrary: x) (auto split: if_splits list.splits)

lemma join_split_on: "join [c] (split_on c s) = s"
proof (induction s)
  case Nil
  show ?case by simp
next
  case (Cons a s)
  obtain w ws where w: "split_on c s = w # ws"
    using split_on_not_Nil [of c s] by (cases "split_on c s") auto
  show ?case
  proof (cases "a = c")
    case True
    with Cons w show ?thesis by simp
  next
    case False
    with Cons w show ?thesis by (cases ws) auto
  qed
qed

lemma join_Cons: "zs \<noteq> [] \<Longrightarrow> join sep (x # zs) = x @ sep @ join sep zs"
  by (cases zs) simp_all

lemma join_prefix:
  "ys \<noteq> [] \<Longrightarrow> join sep (as @ ys) = concat (map (\<lambda>x. x @ sep) as) @ join sep ys"
  by (induction as) (simp_all add: join_Cons)

lemma join_one_more:
  "join [c] (x # ys) = x @ concat (map ((#) c) ys)"
  by (induction ys arbitrary: x) (simp_all add: join_Cons)

lemma join_rest:
  "join [c] (as @ seg # bs) = join [c] (as @ [seg]) @ concat (map ((#) c) bs)"
  by (simp add: join_prefix join_one_more)

subsection \<open>The first qualifying Python file\<close>

lemma normsep_id:
  assumes "normal_rel_path fl f"
  shows "normsep fl f = f"
proof (cases fl)
  case Posix
  then show ?thesis by (simp add: normsep_def)
next
  case Windows
  with assms have "CHR ''/'' \<notin> set f"
    by (simp add: normal_rel_path_def)
  then have "map (\<lambda>c. if c = CHR ''/'' then CHR 0x5C else c) f = f"
    by (induction f) auto
  with Windows show ?thesis by (simp add: normsep_def)
qed

lemma normal_path_parts:
  assumes "normal_rel_path fl f"
  shows "path_parts fl f = split_on (os_sep fl) f"
proof -
  have all: "\<forall>s\<in>set (split_on (os_sep fl) f). s \<noteq> [] \<and> s \<noteq> ''.''"
    using assms by (simp add: normal_rel_path_def list_all_iff)
  have "take 1 f \<noteq> [os_sep fl]"
  proof
    assume "take 1 f = [os_sep fl]"
    then obtain r where "f = os_sep fl # r"
      by (cases f) auto
    then have "[] \<in> set (split_on (os_sep fl) f)"
      by simp
    with all show False by blast
  qed
  then have "path_root fl f = []"
    unfolding path_root_def Let_def normsep_id [OF assms] by (cases f) auto
  moreover have "filter (\<lambda>x. x \<noteq> [] \<and> x \<noteq> ''.'') (split_on (os_sep fl) f)
                   = split_on (os_sep fl) f"
    using all by (simp add: filter_id_conv)
  ultimately show ?thesis
    by (simp add: path_parts_def normsep_id [OF assms])
qed

lemma path_str_join:
  assumes "c = os_sep fl" and "c \<notin> set a"
  shows "path_str fl (a # ns) = join [c] (a # ns)"
  using assms by (auto simp: path_str_def Let_def)

lemma first_segment:
  assumes "\<exists>s\<in>set segs. P s"
  shows "\<exists>as seg bs. segs = as @ seg # bs \<and> (\<forall>s\<in>set as. \<not> P s) \<and> P seg \<and>
           take (length (takeWhile (\<lambda>p. \<not> P p) segs) + 1) segs = as @ [seg]"
proof -
  from split_list_first_prop [OF assms] obtain as seg bs
    where s: "segs = as @ seg # bs" and p: "P seg" and n: "\<forall>y\<in>set as. \<not> P y"
    by blast
  have "takeWhile (\<lambda>p. \<not> P p) segs = as"
    unfolding s using p n by (simp add: takeWhile_tail)
  then have "take (length (takeWhile (\<lambda>p. \<not> P p) segs) + 1) segs = as @ [seg]"
    by (simp add: s)
  with s p n show ?thesis by blast
qed

lemma functions_dir_of_normal_path:
  assumes norm: "normal_rel_path fl f"
    and seg: "\<exists>s\<in>set (split_on (os_sep fl) f). str_in ''functions'' (lw s)"
  shows "\<exists>as seg bs.
           split_on (os_sep fl) f = as @ seg # bs \<and>
           (\<forall>s\<in>set as. \<not> str_in ''functions'' (lw s)) \<and>
           str_in ''functions'' (lw seg) \<and>
           find_functions_part lw fl (path_parts fl f) 0 (path_parts fl f)
             = Some (join [os_sep fl] (as @ [seg])) \<and>
           f = join [os_sep fl] (as @ [seg]) @ concat (map ((#) (os_sep fl)) bs)"
proof -
  let ?c = "os_sep fl"
  let ?P = "\<lambda>s. str_in ''functions'' (lw s)"
  from first_segment [of "split_on ?c f" ?P, OF seg] obtain as sg bs
    where s: "split_on ?c f = as @ sg # bs" and n: "\<forall>s\<in>set as. \<not> ?P s" and p: "?P sg"
      and t: "take (length (takeWhile (\<lambda>p. \<not> ?P p) (split_on ?c f)) + 1) (split_on ?c f)
                = as @ [sg]"
    by blast
  obtain a ns where an: "as @ [sg] = a # ns"
    by (cases as) auto
  then have "a \<in> set (split_on ?c f)"
    unfolding s by (cases as) auto
  then have "?c \<notin> set a"
    by (rule split_on_no_sep)
  then have str: "path_str fl (as @ [sg]) = join [?c] (as @ [sg])"
    unfolding an by (rule path_str_join [OF refl])
  have "find_functions_part lw fl (split_on ?c f) 0 (split_on ?c f)
          = Some (path_str fl (take (0 + length (takeWhile (\<lambda>p. \<not> ?P p) (split_on ?c f)) + 1)
                                 (split_on ?c f)))"
    using seg by (simp only: find_functions_part_eq if_True)
  then have "find_functions_part lw fl (path_parts fl f) 0 (path_parts fl f)
          = Some (join [?c] (as @ [sg]))"
    unfolding normal_path_parts [OF norm] add_0 t str .
  moreover have "f = join [?c] (as @ [sg]) @ concat (map ((#) ?c) bs)"
  proof -
    have a: "f = join [?c] (as @ sg # bs)"
      using join_split_on [of ?c f] by (simp only: s)
    show ?thesis
      by (rule trans [OF a join_rest])
  qed
  ultimately show ?thesis
    using s n p by blast
qed

text \<open>
  C10. In a list with no entry that lower-cases to \<open>package.json\<close>, let \<open>f\<close> be the first
  Python file whose lower-cased path contains \<open>functions\<close> or \<open>netlify\<close>. If \<open>f\<close> matches
  through \<open>netlify\<close> and none of the parts of its path, lower-cased, contains
  \<open>functions\<close>, the type is \<open>python-functions\<close> and \<open>functions_dir\<close> stays \<open>None\<close>,
  whatever files follow. This holds for every lower-casing function, the hypotheses being
  the tests the code itself makes, and for both path flavours, \<open>f\<close> being a path as the
  scan gives it: any path on a POSIX system, a relative path without drive letter on
  Windows.
\<close>

theorem netlify_only_leaves_functions_dir_unset:
  assumes files: "files = xs @ f # ys"
    and before: "\<forall>g\<in>set xs. endswith (lw g) ''.py'' \<longrightarrow>
                   \<not> str_in ''functions'' (lw g) \<and> \<not> str_in ''netlify'' (lw g)"
    and py: "endswith (lw f) ''.py''"
    and netlify: "str_in ''netlify'' (lw f)"
    and segs: "\<forall>p\<in>set (path_parts fl f). \<not> str_in ''functions'' (lw p)"
    and no_pkg: "\<not> (\<exists>g\<in>set files. lw g = ''package.json'')"
    and path: "modelled_path fl f"
  shows "type (detect_from_files_web lw fl root rd files) = ''python-functions'' \<and>
         functions_dir (detect_from_files_web lw fl root rd files) = None \<and>
         type (detect_from_files_wizard lw fl rd files) = ''python-functions'' \<and>
         functions_dir (detect_from_files_wizard lw fl rd files) = None"
proof -
  have q: "qualifies lw f"
    using netlify by (simp add: qualifies_def)
  have "\<forall>g\<in>set xs. endswith (lw g) ''.py'' \<longrightarrow> \<not> qualifies lw g"
    using before by (simp add: qualifies_def)
  then have first: "find (qualifies lw) (filter (\<lambda>f. endswith (lw f) ''.py'') files) = Some f"
    unfolding files using py q by (rule find_first_qualifying)
  have none: "find_functions_part lw fl (path_parts fl f) 0 (path_parts fl f) = None"
    using segs by (simp add: find_functions_part_eq)
  have ex_py: "\<exists>g\<in>set files. endswith (lw g) ''.py''"
    using files py by auto
  show ?thesis
    using first none ex_py no_pkg
    by (simp add: web_type wizard_type web_functions_dir wizard_functions_dir)
qed

theorem netlify_only_leaves_functions_dir_unset_witness:
  "[''index.html'', ''netlify/edge/hello.py'', ''functions/api.py'']
     = [''index.html''] @ ''netlify/edge/hello.py'' # [''functions/api.py''] \<and>
   endswith (ascii_lower ''netlify/edge/hello.py'') ''.py'' \<and>
   str_in ''netlify'' (ascii_lower ''netlify/edge/hello.py'') \<and>
   path_parts Posix ''netlify/edge/hello.py'' = [''netlify'', ''edge'', ''hello.py''] \<and>
   modelled_path Posix ''netlify/edge/hello.py'' \<and>
   type (detect_from_files_web ascii_lower Posix ''/srv/site'' (\<lambda>f. None)
           [''index.html'', ''netlify/edge/hello.py'', ''functions/api.py'']) = ''python-functions'' \<and>
   functions_dir (detect_from_files_web ascii_lower Posix ''/srv/site'' (\<lambda>f. None)
           [''index.html'', ''netlify/edge/hello.py'', ''functions/api.py'']) = None \<and>
   type (detect_from_files_wizard ascii_lower Posix (\<lambda>f. None)
           [''index.html'', ''netlify/edge/hello.py'', ''functions/api.py'']) = ''python-functions'' \<and>
   functions_dir (detect_from_files_wizard ascii_lower Posix (\<lambda>f. None)
           [''index.html'', ''netlify/edge/hello.py'', ''functions/api.py'']) = None"
proof -
  have files: "[''index.html'', ''netlify/edge/hello.py'', ''functions/api.py'']
     = [''index.html''] @ ''netlify/edge/hello.py'' # [''functions/api.py'']"
    by simp
  have before: "\<forall>g\<in>set [''index.html'']. endswith (ascii_lower g) ''.py'' \<longrightarrow>
                   \<not> str_in ''functions'' (ascii_lower g) \<and> \<not> str_in ''netlify'' (ascii_lower g)"
    by code_simp
  have py: "endswith (ascii_lower ''netlify/edge/hello.py'') ''.py''"
    by code_simp
  have netlify: "str_in ''netlify'' (ascii_lower ''netlify/edge/hello.py'')"
    by code_simp
  have parts: "path_parts Posix ''netlify/edge/hello.py'' = [''netlify'', ''edge'', ''hello.py'']"
    by code_simp
  have segs: "\<forall>p\<in>set (path_parts Posix ''netlify/edge/hello.py'').
                \<not> str_in ''functions'' (ascii_lower p)"
    by code_simp
  have no_pkg: "\<not> (\<exists>g\<in>set [''index.html'', ''netlify/edge/hello.py'', ''functions/api.py''].
                     ascii_lower g = ''package.json'')"
    by code_simp
  have path: "modelled_path Posix ''netlify/edge/hello.py''"
    by (simp add: modelled_path_def)
  note t = netlify_only_leaves_functions_dir_unset
    [of _ "[''index.html'']" "''netlify/edge/hello.py''" "[''functions/api.py'']"
        ascii_lower Posix "''/srv/site''" "\<lambda>f. None",
     OF files before py netlify segs no_pkg path]
  show ?thesis
    using files py netlify parts path t by - (elim conjE, intro conjI, assumption+)
qed

text \<open>
  C4, as stated, fails: the loop over the Python files stops at the first file whose path
  contains \<open>functions\<close> or \<open>netlify\<close>. A file that matches through \<open>netlify\<close> alone ends the
  scan, and a later file under \<open>functions\<close> is never looked at.
\<close>

theorem earlier_netlify_file_ends_the_scan:
  "endswith (ascii_lower ''functions/b.py'') ''.py'' \<and>
   str_in ''functions'' (ascii_lower ''functions/b.py'') \<and>
   \<not> str_in ''functions'' (ascii_lower ''netlify/a.py'') \<and>
   \<not> (\<exists>g\<in>set [''netlify/a.py'', ''functions/b.py'']. ascii_lower g = ''package.json'') \<and>
   functions_dir (detect_from_files_web ascii_lower Posix ''/srv/site'' (\<lambda>f. None)
                    [''netlify/a.py'', ''functions/b.py'']) = None \<and>
   functions_dir (detect_from_files_wizard ascii_lower Posix (\<lambda>f. None)
                    [''netlify/a.py'', ''functions/b.py'']) = None"
  by code_simp

text \<open>
  C4, amended. In a list with no entry that lower-cases to \<open>package.json\<close>, let \<open>f\<close> be the
  first Python file whose lower-cased path contains \<open>functions\<close> or \<open>netlify\<close>, and let
  \<open>f\<close> be a relative path as the scanner produces it: segments joined by \<open>os.sep\<close>, none
  empty and none \<open>.\<close>, and on Windows without \<open>/\<close> and without a colon. If one of the
  segments of \<open>f\<close>, lower-cased, contains \<open>functions\<close>, the type is \<open>python-functions\<close> and
  \<open>functions_dir\<close> is the segments of \<open>f\<close> up to and including the first such segment,
  joined by \<open>os.sep\<close>: an initial part of \<open>f\<close> that ends where a segment ends. The files
  after \<open>f\<close> play no part. This holds for both path flavours (\<open>/\<close> on POSIX systems, the
  backslash on Windows) and for every lower-casing function.
\<close>

theorem first_qualifying_file_gives_functions_dir:
  assumes files: "files = xs @ f # ys"
    and before: "\<forall>g\<in>set xs. endswith (lw g) ''.py'' \<longrightarrow>
                   \<not> str_in ''functions'' (lw g) \<and> \<not> str_in ''netlify'' (lw g)"
    and py: "endswith (lw f) ''.py''"
    and has: "str_in ''functions'' (lw f) \<or> str_in ''netlify'' (lw f)"
    and seg: "\<exists>s\<in>set (split_on (os_sep fl) f). str_in ''functions'' (lw s)"
    and no_pkg: "\<not> (\<exists>g\<in>set files. lw g = ''package.json'')"
    and norm: "normal_rel_path fl f"
  shows "type (detect_from_files_web lw fl root rd files) = ''python-functions'' \<and>
         type (detect_from_files_wizard lw fl rd files) = ''python-functions'' \<and>
         (\<exists>as seg bs.
            split_on (os_sep fl) f = as @ seg # bs \<and>
            (\<forall>s\<in>set as. \<not> str_in ''functions'' (lw s)) \<and>
            str_in ''functions'' (lw seg) \<and>
            functions_dir (detect_from_files_web lw fl root rd files)
              = Some (join [os_sep fl] (as @ [seg])) \<and>
            functions_dir (detect_from_files_wizard lw fl rd files)
              = Some (join [os_sep fl] (as @ [seg])) \<and>
            f = join [os_sep fl] (as @ [seg]) @ concat (map ((#) (os_sep fl)) bs))"
proof -
  have q: "qualifies lw f"
    using has by (simp add: qualifies_def)
  have "\<forall>g\<in>set xs. endswith (lw g) ''.py'' \<longrightarrow> \<not> qualifies lw g"
    using before by (simp add: qualifies_def)
  then have first: "find (qualifies lw) (filter (\<lambda>f. endswith (lw f) ''.py'') files) = Some f"
    unfolding files using py q by (rule find_first_qualifying)
  have ex_py: "\<exists>g\<in>set files. endswith (lw g) ''.py''"
    using files py by auto
  have types: "type (detect_from_files_web lw fl root rd files) = ''python-functions'' \<and>
               type (detect_from_files_wizard lw fl rd files) = ''python-functions''"
    using ex_py no_pkg by (simp add: web_type wizard_type)
  have dirs: "functions_dir (detect_from_files_web lw fl root rd files)
                = find_functions_part lw fl (path_parts fl f) 0 (path_parts fl f) \<and>
              functions_dir (detect_from_files_wizard lw fl rd files)
                = find_functions_part lw fl (path_parts fl f) 0 (path_parts fl f)"
    using first by (simp add: web_functions_dir wizard_functions_dir)
  from functions_dir_of_normal_path [OF norm seg] obtain as sg bs
    where "split_on (os_sep fl) f = as @ sg # bs"
      and "\<forall>s\<in>set as. \<not> str_in ''functions'' (lw s)"
      and "str_in ''functions'' (lw sg)"
      and "find_functions_part lw fl (path_parts fl f) 0 (path_parts fl f)
             = Some (join [os_sep fl] (as @ [sg]))"
      and "f = join [os_sep fl] (as @ [sg]) @ concat (map ((#) (os_sep fl)) bs)"
    by blast
  then have "split_on (os_sep fl) f = as @ sg # bs \<and>
            (\<forall>s\<in>set as. \<not> str_in ''functions'' (lw s)) \<and>
            str_in ''functions'' (lw sg) \<and>
            functions_dir (detect_from_files_web lw fl root rd files)
              = Some (join [os_sep fl] (as @ [sg])) \<and>
            functions_dir (detect_from_files_wizard lw fl rd files)
              = Some (join [os_sep fl] (as @ [sg])) \<and>
            f = join [os_sep fl] (as @ [sg]) @ concat (map ((#) (os_sep fl)) bs)"
    using dirs by simp
  then have "\<exists>as seg bs.
            split_on (os_sep fl) f = as @ seg # bs \<and>
            (\<forall>s\<in>set as. \<not> str_in ''functions'' (lw s)) \<and>
            str_in ''functions'' (lw seg) \<and>
            functions_dir (detect_from_files_web lw fl root rd files)
              = Some (join [os_sep fl] (as @ [seg])) \<and>
            functions_dir (detect_from_files_wizard lw fl rd files)
              = Some (join [os_sep fl] (as @ [seg])) \<and>
            f = join [os_sep fl] (as @ [seg]) @ concat (map ((#) (os_sep fl)) bs)"
    by (intro exI)
  with types show ?thesis
    by (intro conjI) (elim conjE, assumption)+
qed

theorem first_qualifying_file_gives_functions_dir_witness:
  "[''index.html'', ''netlify/functions/handler.py'', ''api/functions_v2/x.py'']
     = [''index.html''] @ ''netlify/functions/handler.py'' # [''api/functions_v2/x.py''] \<and>
   endswith (ascii_lower ''netlify/functions/handler.py'') ''.py'' \<and>
   str_in ''functions'' (ascii_lower ''netlify/functions/handler.py'') \<and>
   normal_rel_path Posix ''netlify/functions/handler.py'' \<and>
   type (detect_from_files_web ascii_lower Posix ''/srv/site'' (\<lambda>f. None)
          [''index.html'', ''netlify/functions/handler.py'', ''api/functions_v2/x.py''])
     = ''python-functions'' \<and>
   type (detect_from_files_wizard ascii_lower Posix (\<lambda>f. None)
          [''index.html'', ''netlify/functions/handler.py'', ''api/functions_v2/x.py''])
     = ''python-functions'' \<and>
   (\<exists>as seg bs.
      split_on (os_sep Posix) ''netlify/functions/handler.py'' = as @ seg # bs \<and>
      (\<forall>s\<in>set as. \<not> str_in ''functions'' (ascii_lower s)) \<and>
      str_in ''functions'' (ascii_lower seg) \<and>
      functions_dir (detect_from_files_web ascii_lower Posix ''/srv/site'' (\<lambda>f. None)
          [''index.html'', ''netlify/functions/handler.py'', ''api/functions_v2/x.py''])
        = Some (join [os_sep Posix] (as @ [seg])) \<and>
      functions_dir (detect_from_files_wizard ascii_lower Posix (\<lambda>f. None)
          [''index.html'', ''netlify/functions/handler.py'', ''api/functions_v2/x.py''])
        = Some (join [os_sep Posix] (as @ [seg])) \<and>
      ''netlify/functions/handler.py''
        = join [os_sep Posix] (as @ [seg]) @ concat (map ((#) (os_sep Posix)) bs)) \<and>
   functions_dir (detect_from_files_web ascii_lower Posix ''/srv/site'' (\<lambda>f. None)
          [''index.html'', ''netlify/functions/handler.py'', ''api/functions_v2/x.py''])
     = Some ''netlify/functions'' \<and>
   normal_rel_path Windows (''netlify'' @ [CHR 0x5C] @ ''Functions'' @ [CHR 0x5C] @ ''handler.py'') \<and>
   type (detect_from_files_web ascii_lower Windows ''C:/site'' (\<lambda>f. None)
          [''netlify'' @ [CHR 0x5C] @ ''Functions'' @ [CHR 0x5C] @ ''handler.py''])
     = ''python-functions'' \<and>
   (\<exists>as seg bs.
      split_on (os_sep Windows) (''netlify'' @ [CHR 0x5C] @ ''Functions'' @ [CHR 0x5C] @ ''handler.py'')
        = as @ seg # bs \<and>
      (\<forall>s\<in>set as. \<not> str_in ''functions'' (ascii_lower s)) \<and>
      str_in ''functions'' (ascii_lower seg) \<and>
      functions_dir (detect_from_files_web ascii_lower Windows ''C:/site'' (\<lambda>f. None)
          [''netlify'' @ [CHR 0x5C] @ ''Functions'' @ [CHR 0x5C] @ ''handler.py''])
        = Some (join [os_sep Windows] (as @ [seg])) \<and>
      functions_dir (detect_from_files_wizard ascii_lower Windows (\<lambda>f. None)
          [''netlify'' @ [CHR 0x5C] @ ''Functions'' @ [CHR 0x5C] @ ''handler.py''])
        = Some (join [os_sep Windows] (as @ [seg])) \<and>
      ''netlify'' @ [CHR 0x5C] @ ''Functions'' @ [CHR 0x5C] @ ''handler.py''
        = join [os_sep Windows] (as @ [seg]) @ concat (map ((#) (os_sep Windows)) bs)) \<and>
   functions_dir (detect_from_files_web ascii_lower Windows ''C:/site'' (\<lambda>f. None)
          [''netlify'' @ [CHR 0x5C] @ ''Functions'' @ [CHR 0x5C] @ ''handler.py''])
     = Some (''netlify'' @ [CHR 0x5C] @ ''Functions'')"
proof -
  have files: "[''index.html'', ''netlify/functions/handler.py'', ''api/functions_v2/x.py'']
     = [''index.html''] @ ''netlify/functions/handler.py'' # [''api/functions_v2/x.py'']"
    by simp
  have before: "\<forall>g\<in>set [''index.html'']. endswith (ascii_lower g) ''.py'' \<longrightarrow>
                   \<not> str_in ''functions'' (ascii_lower g) \<and> \<not> str_in ''netlify'' (ascii_lower g)"
    by code_simp
  have py: "endswith (ascii_lower ''netlify/functions/handler.py'') ''.py''"
    by code_simp
  have has: "str_in ''functions'' (ascii_lower ''netlify/functions/handler.py'')"
    by code_simp
  have seg: "\<exists>s\<in>set (split_on (os_sep Posix) ''netlify/functions/handler.py'').
               str_in ''functions'' (ascii_lower s)"
    by code_simp
  have no_pkg: "\<not> (\<exists>g\<in>set [''index.html'', ''netlify/functions/handler.py'',
                               ''api/functions_v2/x.py'']. ascii_lower g = ''package.json'')"
    by code_simp
  have norm: "normal_rel_path Posix ''netlify/functions/handler.py''"
    by code_simp
  have val: "functions_dir (detect_from_files_web ascii_lower Posix ''/srv/site'' (\<lambda>f. None)
          [''index.html'', ''netlify/functions/handler.py'', ''api/functions_v2/x.py''])
     = Some ''netlify/functions''"
    by code_simp
  note t = first_qualifying_file_gives_functions_dir
    [of _ "[''index.html'']" "''netlify/functions/handler.py''" "[''api/functions_v2/x.py'']"
        ascii_lower Posix "''/srv/site''" "\<lambda>f. None",
     OF files before py disjI1 [OF has] seg no_pkg norm]
  let ?w = "''netlify'' @ [CHR 0x5C] @ ''Functions'' @ [CHR 0x5C] @ ''handler.py''"
  have wfiles: "[?w] = [] @ ?w # []"
    by simp
  have wbefore: "\<forall>g\<in>set []. endswith (ascii_lower g) ''.py'' \<longrightarrow>
                   \<not> str_in ''functions'' (ascii_lower g) \<and> \<not> str_in ''netlify'' (ascii_lower g)"
    by simp
  have wpy: "endswith (ascii_lower ?w) ''.py''"
    by code_simp
  have whas: "str_in ''functions'' (ascii_lower ?w)"
    by code_simp
  have wseg: "\<exists>s\<in>set (split_on (os_sep Windows) ?w). str_in ''functions'' (ascii_lower s)"
    by code_simp
  have wno_pkg: "\<not> (\<exists>g\<in>set [?w]. ascii_lower g = ''package.json'')"
    by code_simp
  have wnorm: "normal_rel_path Windows ?w"
    by code_simp
  have wval: "functions_dir (detect_from_files_web ascii_lower Windows ''C:/site'' (\<lambda>f. None) [?w])
     = Some (''netlify'' @ [CHR 0x5C] @ ''Functions'')"
    by code_simp
  note u = first_qualifying_file_gives_functions_dir
    [of _ "[]" ?w "[]" ascii_lower Windows "''C:/site''" "\<lambda>f. None",
     OF wfiles wbefore wpy disjI1 [OF whas] wseg wno_pkg wnorm]
  show ?thesis
    using files py has norm val wnorm wval
      t [THEN conjunct1] t [THEN conjunct2, THEN conjunct1] t [THEN conjunct2, THEN conjunct2]
      u [THEN conjunct1] u [THEN conjunct2, THEN conjunct2]
    by - (intro conjI, assumption+)
qed

section \<open>Properties of the environment-variable scan\<close>

lemma set_add_set: "set (set_add x xs) = insert x (set xs)"
  by (auto simp: set_add_def)

lemma set_add_distinct: "distinct xs \<Longrightarrow> distinct (set_add x xs)"
  by (simp add: set_add_def)

lemma match_patterns_set:
  "set (match_patterns ps content acc) =
     set acc \<union> set (map fst (filter (\<lambda>p. list_ex (\<lambda>kw. str_in kw content) (snd p)) ps))"
  unfolding match_patterns_def
  by (induction ps arbitrary: acc) (auto simp: set_add_set)

lemma match_patterns_distinct:
  "distinct acc \<Longrightarrow> distinct (match_patterns ps content acc)"
  unfolding match_patterns_def
  by (induction ps arbitrary: acc) (auto simp: set_add_distinct)

lemma fold_files_set:
  "set (fold (\<lambda>file env_vars.
             if list_ex (endswith file) source_exts then
               (case rd file of
                  None \<Rightarrow> env_vars
                | Some text \<Rightarrow> match_patterns ps (lw text) env_vars)
             else env_vars) files acc) =
   set acc \<union>
   {v. \<exists>g\<in>set files. \<exists>text. list_ex (endswith g) source_exts \<and> rd g = Some text \<and>
        v \<in> set (map fst (filter (\<lambda>p. list_ex (\<lambda>kw. str_in kw (lw text)) (snd p)) ps))}"
proof (induction files arbitrary: acc)
  case Nil
  show ?case by simp
next
  case (Cons g files)
  show ?case
    unfolding fold_simps comp_def Cons.IH
    by (auto simp: match_patterns_set split: option.splits)
qed

lemma fold_files_distinct:
  "distinct acc \<Longrightarrow>
   distinct (fold (\<lambda>file env_vars.
             if list_ex (endswith file) source_exts then
               (case rd file of
                  None \<Rightarrow> env_vars
                | Some text \<Rightarrow> match_patterns ps (lw text) env_vars)
             else env_vars) files acc)"
  by (induction files arbitrary: acc) (auto simp: match_patterns_distinct split: option.splits)

lemma detect_env_vars_set:
  "set (detect_env_vars ps lw rd files) =
   {v. \<exists>g\<in>set files. \<exists>text. list_ex (endswith g) source_exts \<and> rd g = Some text \<and>
        v \<in> set (map fst (filter (\<lambda>p. list_ex (\<lambda>kw. str_in kw (lw text)) (snd p)) ps))}"
  unfolding detect_env_vars_def by (simp add: fold_files_set)

lemma detect_env_vars_distinct: "distinct (detect_env_vars ps lw rd files)"
  unfolding detect_env_vars_def by (simp add: fold_files_distinct)

lemma detect_env_vars_subset: "set (detect_env_vars ps lw rd files) \<subseteq> fst ` set ps"
  by (auto simp: detect_env_vars_set)

text \<open>
  C8. Whatever the file list and the contents of the files, the list returned by
  \<open>_detect_env_vars\<close> has no duplicates and holds only names of the fixed vocabulary:
  five names in the web application, the same five and \<open>API_KEY\<close> in the wizard.
\<close>

theorem env_vars_closed_vocabulary:
  "distinct (detect_env_vars_web lw rd files) \<and>
   set (detect_env_vars_web lw rd files) \<subseteq>
     {''OPENAI_API_KEY'', ''GOOGLE_API_KEY'', ''ANTHROPIC_API_KEY'', ''DATABASE_URL'', ''SECRET_KEY''} \<and>
   distinct (detect_env_vars_wizard lw rd files) \<and>
   set (detect_env_vars_wizard lw rd files) \<subseteq>
     {''OPENAI_API_KEY'', ''GOOGLE_API_KEY'', ''ANTHROPIC_API_KEY'', ''DATABASE_URL'', ''SECRET_KEY'',
      ''API_KEY''}"
proof -
  have "fst ` set patterns_web =
     {''OPENAI_API_KEY'', ''GOOGLE_API_KEY'', ''ANTHROPIC_API_KEY'', ''DATABASE_URL'', ''SECRET_KEY''}"
    by (simp add: patterns_web_def)
  moreover have "fst ` set patterns_wizard =
     {''OPENAI_API_KEY'', ''GOOGLE_API_KEY'', ''ANTHROPIC_API_KEY'', ''DATABASE_URL'', ''SECRET_KEY'',
      ''API_KEY''}"
    by (simp add: patterns_wizard_def)
  ultimately show ?thesis
    using detect_env_vars_subset [of patterns_web lw rd files]
      detect_env_vars_subset [of patterns_wizard lw rd files]
    by (simp add: detect_env_vars_web_def detect_env_vars_wizard_def detect_env_vars_distinct)
qed

theorem env_vars_closed_vocabulary_witness:
  "distinct (detect_env_vars_web ascii_lower (\<lambda>f. Some ''my_secret = apikey()'') [''a.py'', ''b.js'']) \<and>
   set (detect_env_vars_web ascii_lower (\<lambda>f. Some ''my_secret = apikey()'') [''a.py'', ''b.js'']) \<subseteq>
     {''OPENAI_API_KEY'', ''GOOGLE_API_KEY'', ''ANTHROPIC_API_KEY'', ''DATABASE_URL'', ''SECRET_KEY''} \<and>
   distinct (detect_env_vars_wizard ascii_lower (\<lambda>f. Some ''my_secret = apikey()'') [''a.py'', ''b.js'']) \<and>
   set (detect_env_vars_wizard ascii_lower (\<lambda>f. Some ''my_secret = apikey()'') [''a.py'', ''b.js'']) \<subseteq>
     {''OPENAI_API_KEY'', ''GOOGLE_API_KEY'', ''ANTHROPIC_API_KEY'', ''DATABASE_URL'', ''SECRET_KEY'',
      ''API_KEY''} \<and>
   detect_env_vars_web ascii_lower (\<lambda>f. Some ''my_secret = apikey()'') [''a.py'', ''b.js''] = [''SECRET_KEY''] \<and>
   detect_env_vars_wizard ascii_lower (\<lambda>f. Some ''my_secret = apikey()'') [''a.py'', ''b.js'']
     = [''SECRET_KEY'', ''API_KEY'']"
proof -
  have w: "detect_env_vars_web ascii_lower (\<lambda>f. Some ''my_secret = apikey()'') [''a.py'', ''b.js'']
             = [''SECRET_KEY'']"
    by code_simp
  have z: "detect_env_vars_wizard ascii_lower (\<lambda>f. Some ''my_secret = apikey()'') [''a.py'', ''b.js'']
             = [''SECRET_KEY'', ''API_KEY'']"
    by code_simp
  note t = env_vars_closed_vocabulary [of ascii_lower "\<lambda>f. Some ''my_secret = apikey()''" "[''a.py'', ''b.js'']"]
  show ?thesis
    using t w z by - (elim conjE, intro conjI, assumption+)
qed

text \<open>
  C9. If a file of the list ends in \<open>.py\<close>, \<open>.js\<close>, \<open>.ts\<close>, \<open>.jsx\<close> or \<open>.tsx\<close>, can be
  read, and its text contains \<open>openai\<close> in any mix of upper and lower case, then
  \<open>OPENAI_API_KEY\<close> is among the names \<open>_detect_env_vars\<close> returns, in both programs.
\<close>

theorem openai_keyword_adds_key:
  assumes mem: "f \<in> set files"
    and ext: "endswith f ''.py'' \<or> endswith f ''.js'' \<or> endswith f ''.ts'' \<or>
              endswith f ''.jsx'' \<or> endswith f ''.tsx''"
    and rd: "rd f = Some text"
    and kw: "str_in ''openai'' (lw text)"
  shows "''OPENAI_API_KEY'' \<in> set (detect_env_vars_web lw rd files) \<and>
         ''OPENAI_API_KEY'' \<in> set (detect_env_vars_wizard lw rd files)"
proof -
  have e: "list_ex (endswith f) source_exts"
    using ext by (auto simp: source_exts_def)
  have v: "''OPENAI_API_KEY'' \<in>
       set (map fst (filter (\<lambda>p. list_ex (\<lambda>kw. str_in kw (lw text)) (snd p)) patterns_web))"
    using kw by (simp add: patterns_web_def)
  have v': "''OPENAI_API_KEY'' \<in>
       set (map fst (filter (\<lambda>p. list_ex (\<lambda>kw. str_in kw (lw text)) (snd p)) patterns_wizard))"
    using kw by (simp add: patterns_wizard_def)
  show ?thesis
    unfolding detect_env_vars_web_def detect_env_vars_wizard_def detect_env_vars_set
    using mem e rd v v' by blast
qed

theorem openai_keyword_adds_key_witness:
  "''src/App.tsx'' \<in> set [''README.md'', ''src/App.tsx''] \<and>
   endswith ''src/App.tsx'' ''.tsx'' \<and>
   (\<lambda>f. if f = ''src/App.tsx'' then Some ''import { OpenAI } from sdk'' else None) ''src/App.tsx''
     = Some ''import { OpenAI } from sdk'' \<and>
   str_in ''openai'' (ascii_lower ''import { OpenAI } from sdk'') \<and>
   ''OPENAI_API_KEY'' \<in> set (detect_env_vars_web ascii_lower
      (\<lambda>f. if f = ''src/App.tsx'' then Some ''import { OpenAI } from sdk'' else None)
      [''README.md'', ''src/App.tsx'']) \<and>
   ''OPENAI_API_KEY'' \<in> set (detect_env_vars_wizard ascii_lower
      (\<lambda>f. if f = ''src/App.tsx'' then Some ''import { OpenAI } from sdk'' else None)
      [''README.md'', ''src/App.tsx''])"
proof -
  have mem: "''src/App.tsx'' \<in> set [''README.md'', ''src/App.tsx'']"
    by simp
  have tsx: "endswith ''src/App.tsx'' ''.tsx''"
    by code_simp
  then have ext: "endswith ''src/App.tsx'' ''.py'' \<or> endswith ''src/App.tsx'' ''.js'' \<or>
                  endswith ''src/App.tsx'' ''.ts'' \<or> endswith ''src/App.tsx'' ''.jsx'' \<or>
                  endswith ''src/App.tsx'' ''.tsx''"
    by blast
  have rd: "(\<lambda>f. if f = ''src/App.tsx'' then Some ''import { OpenAI } from sdk'' else None)
              ''src/App.tsx'' = Some ''import { OpenAI } from sdk''"
    by simp
  have kw: "str_in ''openai'' (ascii_lower ''import { OpenAI } from sdk'')"
    by code_simp
  note t = openai_keyword_adds_key
    [of "''src/App.tsx''" "[''README.md'', ''src/App.tsx'']"
        "\<lambda>f. if f = ''src/App.tsx'' then Some ''import { OpenAI } from sdk'' else None"
        "''import { OpenAI } from sdk''" ascii_lower, OF mem ext rd kw]
  show ?thesis
    using mem tsx rd kw t by - (elim conjE, intro conjI, assumption+)
qed

section \<open>Properties of the file scanner\<close>

text \<open>
  C7, as stated, fails: \<open>scan_files\<close> has no check of its root and raises nothing. On a
  path that does not exist, or that is a file, \<open>os.walk\<close> yields nothing and the method
  returns the empty list.
\<close>

theorem scan_of_bad_root_is_empty:
  "scan_files Posix None = [] \<and> scan_files Posix (Some (File (Some ''not a folder''))) = [] \<and>
   scan_files Windows None = [] \<and> scan_files Windows (Some (File (Some ''not a folder''))) = []"
  by (simp add: scan_files_def)

text \<open>
  C7, amended. For a root that does not exist or is not a directory, \<open>scan_files\<close>
  returns the empty list; the root is refused by the callers, before an analyzer is
  built and before any scan: the route \<open>/api/analyze\<close> answers with an error that tells
  the missing path from the path that is not a folder, and the wizard's \<open>main\<close> stops
  with the same two errors.
\<close>

theorem bad_root_rejected_by_callers:
  assumes "\<forall>es. fs \<noteq> Some (Dir es)"
  shows "scan_files fl fs = [] \<and>
         analyze_project lw fl root fs = Inl (if fs = None then PathNotFound root else NotAFolder root) \<and>
         main_analyze lw fl root fs = Inl (if fs = None then PathNotFound root else NotAFolder root)"
proof (cases fs)
  case None
  then show ?thesis
    by (simp add: scan_files_def analyze_project_def main_analyze_def)
next
  case (Some node)
  with assms obtain c where "node = File c"
    by (cases node) auto
  with Some show ?thesis
    by (simp add: scan_files_def analyze_project_def main_analyze_def)
qed

theorem bad_root_rejected_by_callers_witness:
  "(\<forall>es. Some (File None) \<noteq> Some (Dir es)) \<and>
   scan_files Posix (Some (File None)) = [] \<and>
   analyze_project ascii_lower Posix ''/tmp/report.txt'' (Some (File None)) = Inl (NotAFolder ''/tmp/report.txt'') \<and>
   main_analyze ascii_lower Posix ''/tmp/report.txt'' (Some (File None)) = Inl (NotAFolder ''/tmp/report.txt'')"
proof -
  have h: "\<forall>es. Some (File None) \<noteq> Some (Dir es)"
    by simp
  show ?thesis
    using h bad_root_rejected_by_callers [OF h, of Posix ascii_lower "''/tmp/report.txt''"] by simp
qed


section \<open>Properties of the config generator\<close>

lemma split_on_no_sep_id: "c \<notin> set a \<Longrightarrow> split_on c a = [a]"
  by (induction a) auto

lemma split_on_append_sep: "c \<notin> set a \<Longrightarrow> split_on c (a @ c # r) = a # split_on c r"
  by (induction a) auto

lemma split_on_join:
  "ls \<noteq> [] \<Longrightarrow> \<forall>l\<in>set ls. c \<notin> set l \<Longrightarrow> split_on c (join [c] ls) = ls"
proof (induction "[c]" ls rule: join.induct)
  case 1
  then show ?case by simp
next
  case (2 x)
  then show ?case by (simp add: split_on_no_sep_id)
next
  case (3 x y ys)
  then show ?case by (simp add: split_on_append_sep)
qed

lemma split_on_join_nl:
  assumes "ls \<noteq> []" and "\<forall>l\<in>set ls. CHR 0x0A \<notin> set l"
  shows "split_on CHR 0x0A (join newline ls @ newline) = ls @ [[]]"
proof -
  have "join newline ls @ newline = join newline (ls @ [[]])"
    using assms(1) by (induction newline ls rule: join.induct) (simp_all add: newline_def)
  moreover have "split_on CHR 0x0A (join [CHR 0x0A] (ls @ [[]])) = ls @ [[]]"
    using assms by (intro split_on_join) auto
  ultimately show ?thesis
    by (simp add: newline_def)
qed

lemma quoted_no_nl: "CHR 0x0A \<notin> set s \<Longrightarrow> CHR 0x0A \<notin> set (quoted s)"
  by (simp add: quoted_def)

lemma toml_web_lines:
  assumes "CHR 0x0A \<notin> set publish" and "CHR 0x0A \<notin> set (fmt functions)"
    and "CHR 0x0A \<notin> set (fmt command)" and "CHR 0x0A \<notin> set python_version"
  shows "split_on CHR 0x0A (generate_netlify_toml_web publish functions command python_version) =
           [''[build]''] @
           (if truthy functions then [''  functions = '' @ quoted (fmt functions)] else []) @
           [''  publish = '' @ quoted publish] @
           (if truthy command then [''  command = '' @ quoted (fmt command)] else []) @
           (if truthy functions
            then [[], ''[build.environment]'', ''  PYTHON_VERSION = '' @ quoted python_version, [],
                  ''[[redirects]]'', ''  from = '' @ quoted ''/api/*'',
                  ''  to = '' @ quoted ''/.netlify/functions/:splat'', ''  status = 200'']
            else []) @
           [[]]"
  unfolding generate_netlify_toml_web_def Let_def redirect_lines_def
  using assms
  by (subst split_on_join_nl) (auto simp: quoted_no_nl)

lemma toml_wizard_lines:
  assumes "CHR 0x0A \<notin> set publish" and "CHR 0x0A \<notin> set (fmt functions)"
    and "CHR 0x0A \<notin> set (fmt command)" and "CHR 0x0A \<notin> set python_version"
  shows "split_on CHR 0x0A
           (generate_netlify_toml_wizard a publish functions command python_version) =
           [''[build]''] @
           (if truthy functions then [''  functions = '' @ quoted (fmt functions)] else []) @
           [''  publish = '' @ quoted publish] @
           (if truthy command then [''  command = '' @ quoted (fmt command)] else []) @
           (if has_python a \<and> truthy functions
            then [[], ''[functions]'', ''  python_version = '' @ quoted python_version]
            else []) @
           (if truthy functions
            then [[], ''[[redirects]]'', ''  from = '' @ quoted ''/api/*'',
                  ''  to = '' @ quoted ''/.netlify/functions/:splat'', ''  status = 200'']
            else []) @
           [[]]"
  unfolding generate_netlify_toml_wizard_def Let_def redirect_lines_def
  using assms
  by (subst split_on_join_nl) (auto simp: quoted_no_nl)

text \<open>
  C5, as stated, fails: the generator tests \<open>if functions_dir:\<close>, so the empty string,
  which is not \<open>None\<close>, is treated as no functions directory and no redirect block is
  written.
\<close>

theorem empty_functions_dir_gives_no_redirect:
  "Some [] \<noteq> (None :: string option) \<and>
   generate_netlify_toml_web ''.'' (Some []) None ''3.10''
     = ''[build]'' @ [CHR 0x0A] @ ''  publish = '' @ [CHR 0x22] @ ''.'' @ [CHR 0x22] @ [CHR 0x0A] \<and>
   generate_netlify_toml_wizard
       (detect_from_files_wizard ascii_lower Posix (\<lambda>f. None) [''functions/a.py'']) ''.'' (Some []) None ''3.10''
     = ''[build]'' @ [CHR 0x0A] @ ''  publish = '' @ [CHR 0x22] @ ''.'' @ [CHR 0x22] @ [CHR 0x0A] \<and>
   ''[[redirects]]'' \<notin> set (split_on CHR 0x0A (generate_netlify_toml_web ''.'' (Some []) None ''3.10''))"
  by code_simp

text \<open>
  C5, amended. For arguments without a line break: when \<open>functions_dir\<close> is a non-empty
  string, the lines of the manifest hold \<open>[[redirects]]\<close> exactly once, followed at once
  by the lines \<open>from = "/api/*"\<close>, \<open>to = "/.netlify/functions/:splat"\<close> and
  \<open>status = 200\<close>; when \<open>functions_dir\<close> is \<open>None\<close> or empty, the manifest has no
  \<open>[[redirects]]\<close> line, no \<open>[build.environment]\<close> or \<open>[functions]\<close> section and no
  runtime-version key. Both programs.
\<close>

theorem redirect_block_iff_functions_dir:
  assumes "CHR 0x0A \<notin> set publish" and "CHR 0x0A \<notin> set (fmt functions)"
    and "CHR 0x0A \<notin> set (fmt command)" and "CHR 0x0A \<notin> set python_version"
  shows
    "(truthy functions \<longrightarrow>
        count_list (split_on CHR 0x0A
            (generate_netlify_toml_web publish functions command python_version))
          ''[[redirects]]'' = 1 \<and>
        sublist [''[[redirects]]'', ''  from = '' @ quoted ''/api/*'',
                 ''  to = '' @ quoted ''/.netlify/functions/:splat'', ''  status = 200'']
          (split_on CHR 0x0A (generate_netlify_toml_web publish functions command python_version)) \<and>
        count_list (split_on CHR 0x0A
            (generate_netlify_toml_wizard a publish functions command python_version))
          ''[[redirects]]'' = 1 \<and>
        sublist [''[[redirects]]'', ''  from = '' @ quoted ''/api/*'',
                 ''  to = '' @ quoted ''/.netlify/functions/:splat'', ''  status = 200'']
          (split_on CHR 0x0A
            (generate_netlify_toml_wizard a publish functions command python_version))) \<and>
     (\<not> truthy functions \<longrightarrow>
        ''[[redirects]]'' \<notin> set (split_on CHR 0x0A
            (generate_netlify_toml_web publish functions command python_version)) \<and>
        ''[build.environment]'' \<notin> set (split_on CHR 0x0A
            (generate_netlify_toml_web publish functions command python_version)) \<and>
        \<not> list_ex (prefix ''  PYTHON_VERSION'') (split_on CHR 0x0A
            (generate_netlify_toml_web publish functions command python_version)) \<and>
        ''[[redirects]]'' \<notin> set (split_on CHR 0x0A
            (generate_netlify_toml_wizard a publish functions command python_version)) \<and>
        ''[functions]'' \<notin> set (split_on CHR 0x0A
            (generate_netlify_toml_wizard a publish functions command python_version)) \<and>
        \<not> list_ex (prefix ''  python_version'') (split_on CHR 0x0A
            (generate_netlify_toml_wizard a publish functions command python_version)))"
proof -
  let ?block = "[''[[redirects]]'', ''  from = '' @ quoted ''/api/*'',
                 ''  to = '' @ quoted ''/.netlify/functions/:splat'', ''  status = 200'']"
  note w = toml_web_lines [OF assms]
  note z = toml_wizard_lines [OF assms, of a]
  have blk: "\<And>ps ss. sublist ?block (ps @ ?block @ ss)"
    by (rule sublist_appendI)
  have web_block: "truthy functions \<Longrightarrow>
      sublist ?block (split_on CHR 0x0A
         (generate_netlify_toml_web publish functions command python_version))"
  proof -
    assume t: "truthy functions"
    have "split_on CHR 0x0A (generate_netlify_toml_web publish functions command python_version)
        = ([''[build]'', ''  functions = '' @ quoted (fmt functions), ''  publish = '' @ quoted publish] @
           (if truthy command then [''  command = '' @ quoted (fmt command)] else []) @
           [[], ''[build.environment]'', ''  PYTHON_VERSION = '' @ quoted python_version, []]) @
          ?block @ [[]]"
      using t by (simp add: w)
    then show ?thesis
      using blk by metis
  qed
  have wiz_block: "truthy functions \<Longrightarrow>
      sublist ?block (split_on CHR 0x0A
         (generate_netlify_toml_wizard a publish functions command python_version))"
  proof -
    assume t: "truthy functions"
    have "split_on CHR 0x0A
            (generate_netlify_toml_wizard a publish functions command python_version)
        = ([''[build]'', ''  functions = '' @ quoted (fmt functions), ''  publish = '' @ quoted publish] @
           (if truthy command then [''  command = '' @ quoted (fmt command)] else []) @
           (if has_python a then [[], ''[functions]'', ''  python_version = '' @ quoted python_version]
            else []) @ [[]]) @
          ?block @ [[]]"
      using t by (simp add: z)
    then show ?thesis
      using blk by metis
  qed
  have web_count: "truthy functions \<Longrightarrow>
      count_list (split_on CHR 0x0A
         (generate_netlify_toml_web publish functions command python_version)) ''[[redirects]]'' = 1"
    by (simp add: w quoted_def)
  have wiz_count: "truthy functions \<Longrightarrow>
      count_list (split_on CHR 0x0A
         (generate_netlify_toml_wizard a publish functions command python_version))
        ''[[redirects]]'' = 1"
    by (simp add: z quoted_def)
  have web_none: "\<not> truthy functions \<Longrightarrow>
        ''[[redirects]]'' \<notin> set (split_on CHR 0x0A
            (generate_netlify_toml_web publish functions command python_version)) \<and>
        ''[build.environment]'' \<notin> set (split_on CHR 0x0A
            (generate_netlify_toml_web publish functions command python_version)) \<and>
        \<not> list_ex (prefix ''  PYTHON_VERSION'') (split_on CHR 0x0A
            (generate_netlify_toml_web publish functions command python_version))"
    by (simp add: w quoted_def)
  have wiz_none: "\<not> truthy functions \<Longrightarrow>
        ''[[redirects]]'' \<notin> set (split_on CHR 0x0A
            (generate_netlify_toml_wizard a publish functions command python_version)) \<and>
        ''[functions]'' \<notin> set (split_on CHR 0x0A
            (generate_netlify_toml_wizard a publish functions command python_version)) \<and>
        \<not> list_ex (prefix ''  python_version'') (split_on CHR 0x0A
            (generate_netlify_toml_wizard a publish functions command python_version))"
    by (simp add: z quoted_def)
  show ?thesis
    using web_block wiz_block web_count wiz_count web_none wiz_none by blast
qed

theorem redirect_block_iff_functions_dir_witness:
  "CHR 0x0A \<notin> set ''.'' \<and> CHR 0x0A \<notin> set (fmt (Some ''netlify/functions'')) \<and>
   CHR 0x0A \<notin> set (fmt None) \<and> CHR 0x0A \<notin> set ''3.10'' \<and>
   truthy (Some ''netlify/functions'') \<and> \<not> truthy None \<and>
   count_list (split_on CHR 0x0A
       (generate_netlify_toml_web ''.'' (Some ''netlify/functions'') None ''3.10''))
     ''[[redirects]]'' = 1 \<and>
   sublist [''[[redirects]]'', ''  from = '' @ quoted ''/api/*'',
            ''  to = '' @ quoted ''/.netlify/functions/:splat'', ''  status = 200'']
     (split_on CHR 0x0A
       (generate_netlify_toml_wizard (detect_from_files_wizard ascii_lower Posix (\<lambda>f. None) [''netlify/functions/a.py''])
          ''.'' (Some ''netlify/functions'') None ''3.10'')) \<and>
   ''[[redirects]]'' \<notin> set (split_on CHR 0x0A (generate_netlify_toml_web ''.'' None None ''3.10'')) \<and>
   ''[build.environment]'' \<notin> set (split_on CHR 0x0A (generate_netlify_toml_web ''.'' None None ''3.10'')) \<and>
   ''[functions]'' \<notin> set (split_on CHR 0x0A
       (generate_netlify_toml_wizard (detect_from_files_wizard ascii_lower Posix (\<lambda>f. None) [''netlify/functions/a.py''])
          ''.'' None None ''3.10''))"
proof -
  have h1: "CHR 0x0A \<notin> set ''.''"
    by simp
  have h2: "CHR 0x0A \<notin> set (fmt (Some ''netlify/functions''))"
    by (simp add: fmt_def)
  have h3: "CHR 0x0A \<notin> set (fmt None)"
    by (simp add: fmt_def)
  have h4: "CHR 0x0A \<notin> set ''3.10''"
    by simp
  have yes: "truthy (Some ''netlify/functions'')"
    by (simp add: truthy_def)
  have no: "\<not> truthy None"
    by (simp add: truthy_def)
  note t1 = redirect_block_iff_functions_dir
    [of "''.''" "Some ''netlify/functions''" None "''3.10''"
        "detect_from_files_wizard ascii_lower Posix (\<lambda>f. None) [''netlify/functions/a.py'']", OF h1 h2 h3 h4]
  note t2 = redirect_block_iff_functions_dir
    [of "''.''" None None "''3.10''"
        "detect_from_files_wizard ascii_lower Posix (\<lambda>f. None) [''netlify/functions/a.py'']", OF h1 h3 h3 h4]
  from t1 yes have a:
    "count_list (split_on CHR 0x0A
       (generate_netlify_toml_web ''.'' (Some ''netlify/functions'') None ''3.10''))
     ''[[redirects]]'' = 1"
    and b: "sublist [''[[redirects]]'', ''  from = '' @ quoted ''/api/*'',
            ''  to = '' @ quoted ''/.netlify/functions/:splat'', ''  status = 200'']
     (split_on CHR 0x0A
       (generate_netlify_toml_wizard (detect_from_files_wizard ascii_lower Posix (\<lambda>f. None) [''netlify/functions/a.py''])
          ''.'' (Some ''netlify/functions'') None ''3.10''))"
    by blast+
  from t2 no have c:
    "''[[redirects]]'' \<notin> set (split_on CHR 0x0A (generate_netlify_toml_web ''.'' None None ''3.10''))"
    and d: "''[build.environment]'' \<notin> set (split_on CHR 0x0A (generate_netlify_toml_web ''.'' None None ''3.10''))"
    and e: "''[functions]'' \<notin> set (split_on CHR 0x0A
       (generate_netlify_toml_wizard (detect_from_files_wizard ascii_lower Posix (\<lambda>f. None) [''netlify/functions/a.py''])
          ''.'' None None ''3.10''))"
    by blast+
  show ?thesis
    using h1 h2 h3 h4 yes no a b c d e by - (intro conjI, assumption+)
qed


section \<open>The two entry points side by side\<close>

lemma truncate_upd:
  "analysis.truncate (a\<lparr>type := t\<rparr>) = (analysis.truncate a)\<lparr>type := t\<rparr>"
  "analysis.truncate (a\<lparr>has_html := b1\<rparr>) = (analysis.truncate a)\<lparr>has_html := b1\<rparr>"
  "analysis.truncate (a\<lparr>has_python := b2\<rparr>) = (analysis.truncate a)\<lparr>has_python := b2\<rparr>"
  "analysis.truncate (a\<lparr>has_node := b3\<rparr>) = (analysis.truncate a)\<lparr>has_node := b3\<rparr>"
  "analysis.truncate (a\<lparr>has_netlify_config := b4\<rparr>) = (analysis.truncate a)\<lparr>has_netlify_config := b4\<rparr>"
  "analysis.truncate (a\<lparr>has_env_file := b5\<rparr>) = (analysis.truncate a)\<lparr>has_env_file := b5\<rparr>"
  "analysis.truncate (a\<lparr>has_env_example := b6\<rparr>) = (analysis.truncate a)\<lparr>has_env_example := b6\<rparr>"
  "analysis.truncate (a\<lparr>has_gitignore := b7\<rparr>) = (analysis.truncate a)\<lparr>has_gitignore := b7\<rparr>"
  "analysis.truncate (a\<lparr>has_requirements := b8\<rparr>) = (analysis.truncate a)\<lparr>has_requirements := b8\<rparr>"
  "analysis.truncate (a\<lparr>has_package_json := b9\<rparr>) = (analysis.truncate a)\<lparr>has_package_json := b9\<rparr>"
  "analysis.truncate (a\<lparr>python_files := pf\<rparr>) = (analysis.truncate a)\<lparr>python_files := pf\<rparr>"
  "analysis.truncate (a\<lparr>env_vars_needed := e\<rparr>) = (analysis.truncate a)\<lparr>env_vars_needed := e\<rparr>"
  "analysis.truncate (a\<lparr>functions_dir := fd\<rparr>) = (analysis.truncate a)\<lparr>functions_dir := fd\<rparr>"
  "analysis.truncate (a\<lparr>build_command := bc\<rparr>) = (analysis.truncate a)\<lparr>build_command := bc\<rparr>"
  by (simp_all add: analysis.truncate_def)

lemma truncate_sel:
  "has_python (analysis.truncate a) = has_python a"
  "has_node (analysis.truncate a) = has_node a"
  "has_package_json (analysis.truncate a) = has_package_json a"
  "type (analysis.truncate a) = type a"
  "python_files (analysis.truncate a) = python_files a"
  by (simp_all add: analysis.truncate_def)

lemma truncate_if:
  "analysis.truncate (if c then x else y) = (if c then analysis.truncate x else analysis.truncate y)"
  by simp

lemma python_files_after_html:
  "python_files (if c then a\<lparr>has_html := True\<rparr> else a) = python_files a"
  by simp

lemma truncate_flag_file:
  "analysis.truncate (flag_file lw f a) = flag_file lw f (analysis.truncate a)"
  unfolding flag_file_def Let_def
  by (simp only: truncate_if truncate_upd python_files_after_html truncate_sel)

lemma truncate_fold_flag_file:
  "analysis.truncate (fold (flag_file lw) files a) = fold (flag_file lw) files (analysis.truncate a)"
  by (induction files arbitrary: a) (simp_all add: truncate_flag_file)

lemma truncate_type_name:
  "analysis.truncate (a\<lparr>type_name := n\<rparr>) = analysis.truncate a"
  by (simp add: analysis.truncate_def)

lemma truncate_python_loop:
  "analysis.truncate (python_loop_web lw fl pf a) = python_loop_wizard lw fl pf (analysis.truncate a)"
  by (induction lw fl pf a rule: python_loop_web.induct)
     (simp_all add: Let_def truncate_upd truncate_type_name split: option.splits)

lemma truncate_python_rule:
  "analysis.truncate
     (if has_python a then
        (let b = python_loop_web lw fl (python_files a) a
         in if type b = ''static'' \<and> has_python b
            then b\<lparr>type := ''python-functions'', type_name := ''Python Serverless Functions''\<rparr>
            else b)
      else a) =
   (if has_python (analysis.truncate a) then
      (let b = python_loop_wizard lw fl (python_files (analysis.truncate a)) (analysis.truncate a)
       in if type b = ''static'' \<and> has_python b
          then b\<lparr>type := ''python-functions''\<rparr>
          else b)
    else analysis.truncate a)"
  by (simp add: Let_def truncate_python_loop [symmetric] truncate_sel truncate_upd truncate_type_name)

lemma truncate_node_rule:
  "analysis.truncate
     (if has_node a \<and> has_package_json a
      then a\<lparr>type := ''node-project'', type_name := type_name_node,
              build_command := Some ''npm run build''\<rparr>
      else a) =
   (if has_node (analysis.truncate a) \<and> has_package_json (analysis.truncate a)
    then (analysis.truncate a)\<lparr>type := ''node-project'', build_command := Some ''npm run build''\<rparr>
    else analysis.truncate a)"
  by (simp add: truncate_sel truncate_upd truncate_type_name)

lemma truncate_initial:
  "analysis.truncate
     \<lparr>type = ''static'', has_html = False, has_python = False, has_node = False,
      has_netlify_config = False, has_env_file = False, has_env_example = False,
      has_gitignore = False, has_requirements = False, has_package_json = False,
      python_files = [], env_vars_needed = [], publish_dir = ''.'',
      functions_dir = None, build_command = None,
      type_name = type_name_static, file_count = n, path = root\<rparr> =
     \<lparr>type = ''static'', has_html = False, has_python = False, has_node = False,
      has_netlify_config = False, has_env_file = False, has_env_example = False,
      has_gitignore = False, has_requirements = False, has_package_json = False,
      python_files = [], env_vars_needed = [], publish_dir = ''.'',
      functions_dir = None, build_command = None\<rparr>"
  by (simp add: analysis.truncate_def)

lemma classifiers_agree:
  "(analysis.truncate (detect_from_files_web lw fl root rd files))\<lparr>env_vars_needed := []\<rparr> =
   (detect_from_files_wizard lw fl rd files)\<lparr>env_vars_needed := []\<rparr>"
proof -
  define w0 where "w0 =
     \<lparr>type = ''static'', has_html = False, has_python = False, has_node = False,
      has_netlify_config = False, has_env_file = False, has_env_example = False,
      has_gitignore = False, has_requirements = False, has_package_json = False,
      python_files = [], env_vars_needed = [], publish_dir = ''.'',
      functions_dir = None, build_command = None,
      type_name = type_name_static, file_count = length files, path = root\<rparr>"
  define z0 where "z0 =
     \<lparr>type = ''static'', has_html = False, has_python = False, has_node = False,
      has_netlify_config = False, has_env_file = False, has_env_example = False,
      has_gitignore = False, has_requirements = False, has_package_json = False,
      python_files = [], env_vars_needed = [], publish_dir = ''.'',
      functions_dir = None, build_command = None\<rparr>"
  define w1 where "w1 = fold (flag_file lw) files w0"
  define z1 where "z1 = fold (flag_file lw) files z0"
  define w2 where "w2 =
     (if has_python w1 then
        (let b = python_loop_web lw fl (python_files w1) w1
         in if type b = ''static'' \<and> has_python b
            then b\<lparr>type := ''python-functions'', type_name := ''Python Serverless Functions''\<rparr>
            else b)
      else w1)"
  define z2 where "z2 =
     (if has_python z1 then
        (let b = python_loop_wizard lw fl (python_files z1) z1
         in if type b = ''static'' \<and> has_python b
            then b\<lparr>type := ''python-functions''\<rparr>
            else b)
      else z1)"
  define w3 where "w3 =
     (if has_node w2 \<and> has_package_json w2
      then w2\<lparr>type := ''node-project'', type_name := type_name_node,
               build_command := Some ''npm run build''\<rparr>
      else w2)"
  define z3 where "z3 =
     (if has_node z2 \<and> has_package_json z2
      then z2\<lparr>type := ''node-project'', build_command := Some ''npm run build''\<rparr>
      else z2)"
  have e0: "analysis.truncate w0 = z0"
    unfolding w0_def z0_def by (rule truncate_initial)
  have e1: "analysis.truncate w1 = z1"
    unfolding w1_def z1_def by (simp only: truncate_fold_flag_file e0)
  have e2: "analysis.truncate w2 = z2"
    unfolding w2_def z2_def by (simp only: truncate_python_rule e1)
  have e3: "analysis.truncate w3 = z3"
    unfolding w3_def z3_def by (simp only: truncate_node_rule e2)
  have web: "detect_from_files_web lw fl root rd files = w3\<lparr>env_vars_needed := detect_env_vars_web lw rd files\<rparr>"
    unfolding detect_from_files_web_def w3_def w2_def w1_def w0_def Let_def by (rule refl)
  have wiz: "detect_from_files_wizard lw fl rd files = z3\<lparr>env_vars_needed := detect_env_vars_wizard lw rd files\<rparr>"
    unfolding detect_from_files_wizard_def z3_def z2_def z1_def z0_def Let_def by (rule refl)
  show ?thesis
    unfolding web wiz by (simp add: truncate_upd e3)
qed

lemma patterns_wizard_eq:
  "patterns_wizard = patterns_web @ [(''API_KEY'', [''api_key'', ''apikey''])]"
  by (simp add: patterns_wizard_def patterns_web_def)

lemma env_vars_agree_up_to_api_key:
  "set (detect_env_vars_web lw rd files) = set (detect_env_vars_wizard lw rd files) - {''API_KEY''}"
proof -
  have not_web: "''API_KEY'' \<notin> fst ` set patterns_web"
    by (simp add: patterns_web_def)
  have web_sub: "set (detect_env_vars_web lw rd files) \<subseteq> fst ` set patterns_web"
    unfolding detect_env_vars_web_def by (rule detect_env_vars_subset)
  have "set (detect_env_vars_wizard lw rd files) - {''API_KEY''} \<subseteq> set (detect_env_vars_web lw rd files)"
    unfolding detect_env_vars_web_def detect_env_vars_wizard_def detect_env_vars_set
      patterns_wizard_eq
    by auto
  moreover have "set (detect_env_vars_web lw rd files) \<subseteq> set (detect_env_vars_wizard lw rd files)"
    unfolding detect_env_vars_web_def detect_env_vars_wizard_def detect_env_vars_set
      patterns_wizard_eq
    by auto
  ultimately show ?thesis
    using not_web web_sub by blast
qed

lemma requirements_agree:
  "generate_requirements_web (env_vars_needed a) = generate_requirements_wizard a"
  by (simp add: generate_requirements_web_def generate_requirements_wizard_def Let_def)

lemma env_entry_agree:
  "v \<noteq> ''API_KEY'' \<Longrightarrow> env_entry descriptions_web lw v = env_entry descriptions_wizard lw v"
proof -
  assume "v \<noteq> ''API_KEY''"
  then have "map_of descriptions_wizard v = map_of descriptions_web v"
    by (simp add: descriptions_wizard_def map_add_def split: option.splits)
  then show ?thesis
    by (simp only: env_entry_def)
qed

lemma env_example_agree:
  assumes "''API_KEY'' \<notin> set env_vars"
  shows "generate_env_example_web lw env_vars = generate_env_example_wizard lw env_vars"
proof -
  have "map (env_entry descriptions_web lw) env_vars = map (env_entry descriptions_wizard lw) env_vars"
    using assms by (intro map_cong refl env_entry_agree) auto
  then show ?thesis
    by (simp only: generate_env_example_web_def generate_env_example_wizard_def
        generate_env_example_def)
qed

lemma toml_agree:
  "\<not> truthy functions \<Longrightarrow>
   generate_netlify_toml_web publish functions command python_version =
   generate_netlify_toml_wizard a publish functions command python_version"
  by (simp add: generate_netlify_toml_web_def generate_netlify_toml_wizard_def Let_def)

lemma toml_differ:
  assumes "truthy functions"
  shows "generate_netlify_toml_web publish functions command python_version \<noteq>
         generate_netlify_toml_wizard a publish functions command python_version"
proof -
  define l3 where "l3 = [''[build]''] @ [''  functions = '' @ quoted (fmt functions)] @
     [''  publish = '' @ quoted publish] @
     (if truthy command then [''  command = '' @ quoted (fmt command)] else [])"
  have web: "generate_netlify_toml_web publish functions command python_version =
     join newline (l3 @ [[], ''[build.environment]'',
                           ''  PYTHON_VERSION = '' @ quoted python_version, []] @ redirect_lines) @ newline"
    using assms by (simp add: generate_netlify_toml_web_def Let_def l3_def)
  have wiz: "generate_netlify_toml_wizard a publish functions command python_version =
     join newline (l3 @ (if has_python a
                then [[], ''[functions]'', ''  python_version = '' @ quoted python_version]
                else []) @ [[]] @ redirect_lines) @ newline"
    using assms by (simp add: generate_netlify_toml_wizard_def Let_def l3_def)
  show ?thesis
    unfolding web wiz
    by (simp add: join_prefix redirect_lines_def newline_def)
qed

text \<open>
  C3, as stated, fails: the two programs carry their own copies of the analyzer and of the
  generator, and the copies differ. With a functions directory the web application
  writes a \<open>[build.environment]\<close> section with \<open>PYTHON_VERSION\<close>, the wizard a
  \<open>[functions]\<close> section with \<open>python_version\<close>; the wizard's ignore file has four more
  patterns; the wizard knows a sixth variable, \<open>API_KEY\<close>, and a description for it.
\<close>

theorem entry_points_differ:
  "generate_netlify_toml_web ''.'' (Some ''functions'') None ''3.10'' \<noteq>
   generate_netlify_toml_wizard (detect_from_files_wizard ascii_lower Posix (\<lambda>f. None) [''functions/a.py''])
     ''.'' (Some ''functions'') None ''3.10'' \<and>
   generate_gitignore_web \<noteq> generate_gitignore_wizard \<and>
   detect_env_vars_web ascii_lower (\<lambda>f. Some ''API_KEY = 1'') [''a.py''] = [] \<and>
   detect_env_vars_wizard ascii_lower (\<lambda>f. Some ''API_KEY = 1'') [''a.py''] = [''API_KEY''] \<and>
   generate_env_example_web ascii_lower [''API_KEY''] \<noteq> generate_env_example_wizard ascii_lower [''API_KEY'']"
  by code_simp

text \<open>
  C3, amended. The two programs agree on this much. The classifiers give the same value
  to every key they share except \<open>env_vars_needed\<close> (the web analysis has three keys more);
  the web application's variables are the wizard's without \<open>API_KEY\<close>; the dependency
  lists are equal for equal variables; the environment templates are equal when
  \<open>API_KEY\<close> is not asked for; the manifests are equal when \<open>functions_dir\<close> is \<open>None\<close> or
  empty, and differ whenever it is a non-empty string.
\<close>

theorem entry_points_agree_in_part:
  "(analysis.truncate (detect_from_files_web lw fl root rd files))\<lparr>env_vars_needed := []\<rparr> =
     (detect_from_files_wizard lw fl rd files)\<lparr>env_vars_needed := []\<rparr> \<and>
   set (detect_env_vars_web lw rd files) = set (detect_env_vars_wizard lw rd files) - {''API_KEY''} \<and>
   generate_requirements_web (env_vars_needed a) = generate_requirements_wizard a \<and>
   (''API_KEY'' \<notin> set env_vars \<longrightarrow>
      generate_env_example_web lw env_vars = generate_env_example_wizard lw env_vars) \<and>
   (\<not> truthy functions \<longrightarrow>
      generate_netlify_toml_web publish functions command python_version =
      generate_netlify_toml_wizard a publish functions command python_version) \<and>
   (truthy functions \<longrightarrow>
      generate_netlify_toml_web publish functions command python_version \<noteq>
      generate_netlify_toml_wizard a publish functions command python_version)"
proof (intro conjI impI)
  show "(analysis.truncate (detect_from_files_web lw fl root rd files))\<lparr>env_vars_needed := []\<rparr> =
     (detect_from_files_wizard lw fl rd files)\<lparr>env_vars_needed := []\<rparr>"
    by (rule classifiers_agree)
  show "set (detect_env_vars_web lw rd files) = set (detect_env_vars_wizard lw rd files) - {''API_KEY''}"
    by (rule env_vars_agree_up_to_api_key)
  show "generate_requirements_web (env_vars_needed a) = generate_requirements_wizard a"
    by (rule requirements_agree)
  show "generate_env_example_web lw env_vars = generate_env_example_wizard lw env_vars"
    if "''API_KEY'' \<notin> set env_vars"
    using that by (rule env_example_agree)
  show "generate_netlify_toml_web publish functions command python_version =
      generate_netlify_toml_wizard a publish functions command python_version"
    if "\<not> truthy functions"
    using that by (rule toml_agree)
  show "generate_netlify_toml_web publish functions command python_version \<noteq>
      generate_netlify_toml_wizard a publish functions command python_version"
    if "truthy functions"
    using that by (rule toml_differ)
qed

theorem entry_points_agree_in_part_witness:
  "''API_KEY'' \<notin> set [''OPENAI_API_KEY''] \<and> \<not> truthy None \<and>
   (analysis.truncate (detect_from_files_web ascii_lower Posix ''/srv/site'' (\<lambda>f. Some ''import openai'')
        [''index.html'', ''functions/chat.py'']))\<lparr>env_vars_needed := []\<rparr> =
     (detect_from_files_wizard ascii_lower Posix (\<lambda>f. Some ''import openai'')
        [''index.html'', ''functions/chat.py''])\<lparr>env_vars_needed := []\<rparr> \<and>
   set (detect_env_vars_web ascii_lower (\<lambda>f. Some ''import openai'') [''index.html'', ''functions/chat.py'']) =
     set (detect_env_vars_wizard ascii_lower (\<lambda>f. Some ''import openai'') [''index.html'', ''functions/chat.py''])
       - {''API_KEY''} \<and>
   generate_requirements_web
       (env_vars_needed (detect_from_files_wizard ascii_lower Posix (\<lambda>f. Some ''import openai'')
          [''index.html'', ''functions/chat.py''])) =
     generate_requirements_wizard
       (detect_from_files_wizard ascii_lower Posix (\<lambda>f. Some ''import openai'') [''index.html'', ''functions/chat.py'']) \<and>
   generate_env_example_web ascii_lower [''OPENAI_API_KEY''] = generate_env_example_wizard ascii_lower [''OPENAI_API_KEY''] \<and>
   generate_netlify_toml_web ''dist'' None (Some ''npm run build'') ''3.10'' =
     generate_netlify_toml_wizard
       (detect_from_files_wizard ascii_lower Posix (\<lambda>f. Some ''import openai'') [''index.html'', ''functions/chat.py''])
       ''dist'' None (Some ''npm run build'') ''3.10'' \<and>
   truthy (Some ''functions'') \<and>
   generate_netlify_toml_web ''dist'' (Some ''functions'') (Some ''npm run build'') ''3.10'' \<noteq>
     generate_netlify_toml_wizard
       (detect_from_files_wizard ascii_lower Posix (\<lambda>f. Some ''import openai'') [''index.html'', ''functions/chat.py''])
       ''dist'' (Some ''functions'') (Some ''npm run build'') ''3.10''"
proof -
  have h1: "''API_KEY'' \<notin> set [''OPENAI_API_KEY'']"
    by simp
  have h2: "\<not> truthy None"
    by (simp add: truthy_def)
  note t = entry_points_agree_in_part
    [of ascii_lower Posix "''/srv/site''" "\<lambda>f. Some ''import openai''" "[''index.html'', ''functions/chat.py'']"
        "detect_from_files_wizard ascii_lower Posix (\<lambda>f. Some ''import openai'') [''index.html'', ''functions/chat.py'']"
        "[''OPENAI_API_KEY'']" None "''dist''" "Some ''npm run build''" "''3.10''"]
  note c1 = t [THEN conjunct1]
  note c2 = t [THEN conjunct2, THEN conjunct1]
  note c3 = t [THEN conjunct2, THEN conjunct2, THEN conjunct1]
  note c4 = t [THEN conjunct2, THEN conjunct2, THEN conjunct2, THEN conjunct1, THEN mp, OF h1]
  note c5 = t [THEN conjunct2, THEN conjunct2, THEN conjunct2, THEN conjunct2, THEN conjunct1,
                THEN mp, OF h2]
  have h3: "truthy (Some ''functions'')"
    by (simp add: truthy_def)
  note u = entry_points_agree_in_part
    [of ascii_lower Posix "''/srv/site''" "\<lambda>f. Some ''import openai''" "[''index.html'', ''functions/chat.py'']"
        "detect_from_files_wizard ascii_lower Posix (\<lambda>f. Some ''import openai'') [''index.html'', ''functions/chat.py'']"
        "[''OPENAI_API_KEY'']" "Some ''functions''" "''dist''" "Some ''npm run build''" "''3.10''"]
  note c6 = u [THEN conjunct2, THEN conjunct2, THEN conjunct2, THEN conjunct2, THEN conjunct2,
                THEN mp, OF h3]
  show ?thesis
    using h1 h2 c1 c2 c3 c4 c5 h3 c6 by - (intro conjI, assumption+)
qed

section \<open>Properties of the deploy result\<close>

subsection \<open>White space and tokens\<close>

lemma white_space_nonempty: "w \<in> set white_space \<Longrightarrow> w \<noteq> []"
  by (auto simp: white_space_def)

lemma white_space_no_h: "w \<in> set white_space \<Longrightarrow> CHR ''h'' \<notin> set w"
  by (auto simp: white_space_def)

lemma white_space_no_y: "w \<in> set white_space \<Longrightarrow> CHR ''y'' \<notin> set w"
  by (auto simp: white_space_def)

lemma space_at_0: "space_at s = 0 \<longleftrightarrow> (\<forall>w\<in>set white_space. \<not> prefix w s)"
proof (cases "find (\<lambda>w. prefix w s) white_space")
  case None
  then have a: "space_at s = 0"
    by (simp add: space_at_def)
  from None have "\<forall>w\<in>set white_space. \<not> prefix w s"
    by (simp add: find_None_iff)
  with a show ?thesis
    by simp
next
  case (Some w)
  then have "w \<in> set white_space" and "prefix w s"
    by (auto simp: find_Some_iff)
  moreover from this have "w \<noteq> []"
    using white_space_nonempty by blast
  ultimately show ?thesis
    using Some by (auto simp: space_at_def)
qed

lemma space_at_pos:
  assumes "0 < space_at s"
  shows "\<exists>w\<in>set white_space. prefix w s \<and> length w = space_at s"
proof (cases "find (\<lambda>w. prefix w s) white_space")
  case None
  with assms show ?thesis
    by (simp add: space_at_def)
next
  case (Some w)
  then have "w \<in> set white_space" and "prefix w s"
    by (auto simp: find_Some_iff)
  with Some show ?thesis
    by (auto simp: space_at_def)
qed

lemma split_ws_from_tokens:
  "t \<in> set (split_ws_from cur k s) \<Longrightarrow> t \<noteq> []"
  by (induction cur k s rule: split_ws_from.induct) (auto split: if_splits)

lemma split_ws_tokens: "t \<in> set (split_ws s) \<Longrightarrow> t \<noteq> []"
  unfolding split_ws_def by (rule split_ws_from_tokens)

lemma last_token: "split_ws s \<noteq> [] \<Longrightarrow> last (split_ws s) \<noteq> []"
  using split_ws_tokens [of "last (split_ws s)" s] by simp

lemma split_ws_from_empty:
  "split_ws_from cur k s = [] \<Longrightarrow> cur = [] \<and> CHR ''h'' \<notin> set (drop k s)"
proof (induction cur k s rule: split_ws_from.induct)
  case (1 cur k)
  then show ?case
    by (simp split: if_splits)
next
  case (2 cur k c cs)
  show ?case
  proof (cases "0 < k")
    case True
    with 2 have "cur = [] \<and> CHR ''h'' \<notin> set (drop (k - 1) cs)"
      by simp
    moreover from True have "drop k (c # cs) = drop (k - 1) cs"
      by (cases k) simp_all
    ultimately show ?thesis
      by simp
  next
    case k0: False
    show ?thesis
    proof (cases "0 < space_at (c # cs)")
      case True
      from 2(4) k0 True have cur: "cur = []"
        and e: "split_ws_from [] (space_at (c # cs) - 1) cs = []"
        by (simp_all split: if_splits)
      from 2(2) [OF k0 True e] have rest: "CHR ''h'' \<notin> set (drop (space_at (c # cs) - 1) cs)"
        by simp
      from space_at_pos [OF True] obtain w
        where w: "w \<in> set white_space" and p: "prefix w (c # cs)"
          and n: "length w = space_at (c # cs)"
        by blast
      from p obtain r where r: "c # cs = w @ r"
        by (auto simp: prefix_def)
      have "drop (space_at (c # cs) - 1) cs = drop (space_at (c # cs)) (c # cs)"
        using True by (cases "space_at (c # cs)") simp_all
      also have "\<dots> = drop (length w) (w @ r)"
        by (simp only: n r)
      also have "\<dots> = r"
        by simp
      finally have "CHR ''h'' \<notin> set r"
        using rest by simp
      moreover have "CHR ''h'' \<notin> set w"
        using w by (rule white_space_no_h)
      ultimately have "CHR ''h'' \<notin> set (c # cs)"
        unfolding r by simp
      with cur k0 show ?thesis
        by simp
    next
      case False
      with 2(4) k0 have "split_ws_from (cur @ [c]) 0 cs = []"
        by simp
      from 2(3) [OF k0 False this] show ?thesis
        by simp
    qed
  qed
qed

lemma split_ws_empty_no_h: "split_ws s = [] \<Longrightarrow> CHR ''h'' \<notin> set s"
  unfolding split_ws_def by (drule split_ws_from_empty) simp

subsection \<open>The URL pattern\<close>

lemma run_of_append:
  "(\<forall>i<length v. space_at (drop i (v @ r)) = 0) \<Longrightarrow> run_of (v @ r) = v @ run_of r"
proof (induction v)
  case Nil
  show ?case by simp
next
  case (Cons a v)
  from Cons.prems have "space_at (drop 0 ((a # v) @ r)) = 0"
    by blast
  then have h: "space_at (a # v @ r) = 0"
    by simp
  have "\<forall>i<length v. space_at (drop i (v @ r)) = 0"
  proof (intro allI impI)
    fix i
    assume "i < length v"
    then have "Suc i < length (a # v)"
      by simp
    with Cons.prems have "space_at (drop (Suc i) ((a # v) @ r)) = 0"
      by blast
    then show "space_at (drop i (v @ r)) = 0"
      by simp
  qed
  then have "run_of (v @ r) = v @ run_of r"
    by (rule Cons.IH)
  with h show ?case
    by simp
qed

lemma run_of_no_space: "i < length (run_of r) \<Longrightarrow> space_at (drop i r) = 0"
proof (induction r arbitrary: i)
  case Nil
  then show ?case by simp
next
  case (Cons c cs)
  show ?case
  proof (cases "0 < space_at (c # cs)")
    case True
    with Cons.prems show ?thesis by simp
  next
    case False
    show ?thesis
    proof (cases i)
      case 0
      with False show ?thesis by simp
    next
      case (Suc j)
      with Cons.prems False have "j < length (run_of cs)"
        by simp
      then have "space_at (drop j cs) = 0"
        by (rule Cons.IH)
      with Suc show ?thesis by simp
    qed
  qed
qed

lemma run_of_prefix: "prefix (run_of r) r"
  by (induction r) simp_all

lemma spaceless_run: "spaceless (run_of r)"
  unfolding spaceless_def list_all_iff
proof (intro ballI notI)
  fix w
  assume w: "w \<in> set white_space" and "sublist w (run_of r)"
  then obtain a c where run: "run_of r = a @ w @ c"
    by (auto simp: sublist_def)
  from run_of_prefix [of r] obtain rest where r: "r = run_of r @ rest"
    by (auto simp: prefix_def)
  have "w \<noteq> []"
    using w by (rule white_space_nonempty)
  then have "length a < length (run_of r)"
    unfolding run by simp
  then have "space_at (drop (length a) r) = 0"
    by (rule run_of_no_space)
  moreover have "r = a @ w @ c @ rest"
    using r run by simp
  then have "drop (length a) r = w @ c @ rest"
    by (metis append_eq_conv_conj)
  then have "prefix w (drop (length a) r)"
    by simp
  ultimately show False
    using w by (simp add: space_at_0)
qed

lemma match_at_Nil: "match_at [] = None"
  by (simp add: match_at_def)

lemma match_at_nonempty: "match_at s = Some m \<Longrightarrow> m \<noteq> []"
  by (auto simp: match_at_def Let_def split: if_splits)

lemma findall_after_prefix:
  "match_at s = Some m \<Longrightarrow> findall_netlify (a @ s) \<noteq> []"
proof (induction a)
  case Nil
  then show ?case
    by (cases s) (simp_all add: match_at_Nil)
next
  case (Cons x a)
  then show ?case
    by (simp split: option.splits)
qed

lemma run_through_netlify:
  assumes ns: "spaceless (x # y @ ''netlify'' @ z)"
  shows "run_of ((x # y @ ''netlify'' @ z) @ b) = (x # y @ ''netlify'') @ run_of (z @ b)"
proof -
  define v where "v = x # y @ ''netlify''"
  have last_v: "last v = CHR ''y''"
    by (simp add: v_def)
  have v_ne: "v \<noteq> []"
    by (simp add: v_def)
  have u: "x # y @ ''netlify'' @ z = v @ z"
    by (simp add: v_def)
  have "\<forall>i<length v. space_at (drop i (v @ (z @ b))) = 0"
  proof (intro allI impI)
    fix i
    assume i: "i < length v"
    show "space_at (drop i (v @ (z @ b))) = 0"
      unfolding space_at_0
    proof (intro ballI notI)
      fix w
      assume w: "w \<in> set white_space" and "prefix w (drop i (v @ (z @ b)))"
      then have "prefix w (drop i v @ (z @ b))"
        using i by simp
      then consider (inside) "prefix w (drop i v)"
        | (across) us where "w = drop i v @ us"
        by (auto simp: prefix_append)
      then show False
      proof cases
        case inside
        then have "sublist w (drop i v)"
          by (rule prefix_imp_sublist)
        moreover have "sublist (drop i v) (v @ z)"
          by (metis append_take_drop_id sublist_appendI append_assoc)
        ultimately have "sublist w (v @ z)"
          by (rule sublist_order.order.trans)
        with ns w show False
          unfolding u by (simp add: spaceless_def list_all_iff)
      next
        case across
        have "drop i v \<noteq> []"
          using i by simp
        then have "last (drop i v) \<in> set (drop i v)"
          by (rule last_in_set)
        moreover have "last (drop i v) = CHR ''y''"
          using i last_v by (simp add: last_drop)
        ultimately have "CHR ''y'' \<in> set w"
          unfolding across by simp
        with w show False
          using white_space_no_y by blast
      qed
    qed
  qed
  then have "run_of (v @ (z @ b)) = v @ run_of (z @ b)"
    by (rule run_of_append)
  then show ?thesis
    unfolding v_def by simp
qed

lemma has_netlify_url_match:
  assumes "has_netlify_url l"
  shows "findall_netlify l \<noteq> [] \<and> str_in ''https://'' l \<and> str_in ''netlify'' l"
proof -
  from assms obtain a u b x y z
    where l: "l = a @ ''https://'' @ u @ b" and ns: "spaceless u"
      and u: "u = x # y @ ''netlify'' @ z"
    unfolding has_netlify_url_def by blast
  have run: "run_of (u @ b) = (x # y @ ''netlify'') @ run_of (z @ b)"
    using ns unfolding u by (rule run_through_netlify)
  have "sublist ''netlify'' (y @ ''netlify'' @ run_of (z @ b))"
    by (rule sublist_appendI)
  then have "match_at (''https://'' @ u @ b) = Some (''https://'' @ run_of (u @ b))"
    by (simp add: match_at_def Let_def str_in_def run)
  then have "findall_netlify (a @ ''https://'' @ u @ b) \<noteq> []"
    by (rule findall_after_prefix)
  moreover have "sublist ''https://'' (a @ ''https://'' @ (u @ b))"
    by (rule sublist_appendI)
  moreover have "sublist ''netlify'' ((a @ ''https://'' @ x # y) @ ''netlify'' @ (z @ b))"
    by (rule sublist_appendI)
  ultimately show ?thesis
    using l u by (simp add: str_in_def)
qed

lemma has_netlify_url_token:
  assumes "has_netlify_url l"
  shows "split_ws l \<noteq> []"
proof
  assume "split_ws l = []"
  then have "CHR ''h'' \<notin> set l"
    by (rule split_ws_empty_no_h)
  moreover from assms have "CHR ''h'' \<in> set l"
    unfolding has_netlify_url_def by auto
  ultimately show False
    by blast
qed

lemma match_at_has_url:
  assumes "match_at s = Some m"
  shows "has_netlify_url (a @ s)"
proof -
  from assms have pre: "prefix ''https://'' s"
    by (auto simp: match_at_def split: if_splits)
  then obtain r where s: "s = ''https://'' @ r"
    by (auto simp: prefix_def)
  define run where "run = run_of r"
  from assms s have ne: "run \<noteq> []" and nl: "str_in ''netlify'' (tl run)"
    by (auto simp: match_at_def Let_def run_def split: if_splits)
  from ne obtain x t where xt: "run = x # t"
    by (cases run) auto
  from nl xt obtain y z where t: "t = y @ ''netlify'' @ z"
    by (auto simp: str_in_def sublist_def)
  from run_of_prefix [of r] obtain rest where r: "r = run @ rest"
    by (auto simp: prefix_def run_def)
  have ns: "spaceless run"
    unfolding run_def by (rule spaceless_run)
  have "a @ s = a @ ''https://'' @ run @ rest"
    using s r by simp
  then show ?thesis
    unfolding has_netlify_url_def using ns xt t by blast
qed

lemma findall_has_url:
  "findall_netlify l \<noteq> [] \<Longrightarrow> has_netlify_url l"
proof (induction l)
  case Nil
  then show ?case by simp
next
  case (Cons c cs)
  show ?case
  proof (cases "match_at (c # cs)")
    case None
    with Cons have "has_netlify_url cs" by simp
    then obtain a u b where "cs = a @ ''https://'' @ u @ b"
      and "spaceless u" and "\<exists>x y z. u = x # y @ ''netlify'' @ z"
      unfolding has_netlify_url_def by blast
    then have "c # cs = (c # a) @ ''https://'' @ u @ b \<and> spaceless u \<and>
        (\<exists>x y z. u = x # y @ ''netlify'' @ z)"
      by simp
    then show ?thesis
      unfolding has_netlify_url_def by blast
  next
    case (Some m)
    then show ?thesis
      using match_at_has_url [of "c # cs" m "[]"] by simp
  qed
qed

lemma findall_head_nonempty:
  "findall_netlify l = u # us \<Longrightarrow> u \<noteq> []"
proof (induction l)
  case Nil
  then show ?case by simp
next
  case (Cons c cs)
  then show ?case
    by (auto split: option.splits dest: match_at_nonempty)
qed

subsection \<open>The loop over the output lines\<close>

lemma scan_line_website:
  assumes "website_line lw l"
  shows "scan_line lw l st = (Some (last (split_ws l)), snd st)"
proof -
  from assms have k: "keyword_line lw ''website'' l" and t: "split_ws l \<noteq> []"
    by (simp_all add: website_line_def)
  from t obtain p ps where "split_ws l = p # ps"
    by (cases "split_ws l") auto
  then show ?thesis
    using k by (simp add: scan_line_def keyword_line_def Let_def)
qed

lemma scan_line_deploy:
  assumes "deploy_line lw l"
  shows "scan_line lw l st = (fst st, Some (last (split_ws l)))"
proof -
  from assms have k: "keyword_line lw ''deploy'' l" and n: "\<not> keyword_line lw ''website'' l"
    and t: "split_ws l \<noteq> []"
    by (simp_all add: deploy_line_def)
  from t obtain p ps where "split_ws l = p # ps"
    by (cases "split_ws l") auto
  then show ?thesis
    using k n by (auto simp: scan_line_def keyword_line_def Let_def)
qed

lemma scan_line_netlify:
  assumes "netlify_line lw l"
  shows "scan_line lw l st = (Some (hd (findall_netlify l)), snd st)"
proof -
  from assms have n: "\<not> keyword_line lw ''website'' l" and d: "\<not> keyword_line lw ''deploy'' l"
    and h: "has_netlify_url l"
    by (simp_all add: netlify_line_def)
  from has_netlify_url_match [OF h] obtain u us where "findall_netlify l = u # us"
    and "str_in ''https://'' l" and "str_in ''netlify'' l"
    by (cases "findall_netlify l") auto
  then show ?thesis
    using n d by (auto simp: scan_line_def keyword_line_def Let_def)
qed

lemma scan_line_other:
  assumes "\<not> website_line lw l" and "\<not> deploy_line lw l" and "\<not> netlify_line lw l"
  shows "scan_line lw l st = st"
proof (cases "keyword_line lw ''website'' l")
  case True
  with assms(1) have "split_ws l = []"
    by (simp add: website_line_def)
  with True show ?thesis
    by (simp add: scan_line_def keyword_line_def Let_def)
next
  case w: False
  show ?thesis
  proof (cases "keyword_line lw ''deploy'' l")
    case True
    with assms(2) w have "split_ws l = []"
      by (simp add: deploy_line_def)
    with True w show ?thesis
      by (auto simp: scan_line_def keyword_line_def Let_def)
  next
    case False
    with assms(3) w have "\<not> has_netlify_url l"
      by (simp add: netlify_line_def)
    then have "findall_netlify l = []"
      using findall_has_url by blast
    with False w show ?thesis
      by (auto simp: scan_line_def keyword_line_def Let_def)
  qed
qed

lemma line_kinds_exclusive:
  "\<not> (website_line lw l \<and> deploy_line lw l)" "\<not> (website_line lw l \<and> netlify_line lw l)"
  "\<not> (deploy_line lw l \<and> netlify_line lw l)"
  by (auto simp: website_line_def deploy_line_def netlify_line_def)

lemma fold_scan_line:
  "fold (scan_line lw) ls st =
     (case filter (\<lambda>m. website_line lw m \<or> netlify_line lw m) ls of
        [] \<Rightarrow> fst st
      | m # ms \<Rightarrow> Some (if website_line lw (last (m # ms)) then last (split_ws (last (m # ms)))
                       else hd (findall_netlify (last (m # ms)))),
      case filter (deploy_line lw) ls of
        [] \<Rightarrow> snd st
      | m # ms \<Rightarrow> Some (last (split_ws (last (m # ms)))))"
proof (induction ls arbitrary: st)
  case Nil
  show ?case by simp
next
  case (Cons l ls)
  consider (w) "website_line lw l" | (d) "deploy_line lw l" | (n) "netlify_line lw l"
    | (o) "\<not> website_line lw l" "\<not> deploy_line lw l" "\<not> netlify_line lw l"
    by blast
  then show ?case
  proof cases
    case w
    then have "\<not> deploy_line lw l" using line_kinds_exclusive by blast
    with w show ?thesis
      by (simp add: Cons.IH scan_line_website split: list.splits)
  next
    case d
    then have "\<not> website_line lw l" "\<not> netlify_line lw l" using line_kinds_exclusive by blast+
    with d show ?thesis
      by (simp add: Cons.IH scan_line_deploy split: list.splits)
  next
    case n
    then have "\<not> website_line lw l" "\<not> deploy_line lw l" using line_kinds_exclusive by blast+
    with n show ?thesis
      by (simp add: Cons.IH scan_line_netlify split: list.splits)
  next
    case o
    then show ?thesis
      by (simp add: Cons.IH scan_line_other)
  qed
qed

lemma deploy_url:
  "url (deploy lw p) =
     (let st = fold (scan_line lw)
                 (split_on CHR 0x0A (stdout (run_command p) @ newline @ stderr (run_command p)))
                 (None, None)
      in if truthy (fst st) then fst st else snd st)"
  by (simp add: deploy_def Let_def)

lemma deploy_success_if_url: "url (deploy lw p) = Some u \<Longrightarrow> success (deploy lw p)"
  by (simp add: deploy_def Let_def)

text \<open>
  C6, as stated, fails. The wizard's \<open>deploy_preview\<close> reads the output only when the exit
  code is 0: with exit code 1 a line naming the draft URL is ignored and the result is
  \<open>None\<close>. In the web application, a URL in which \<open>netlify\<close> follows \<open>https://\<close> at once is
  not matched by the pattern, and such a line alone gives no URL and no success.
\<close>

theorem wizard_needs_exit_code_zero:
  "keyword_line ascii_lower ''website'' ''Website Draft URL: https://demo.netlify.app'' \<and>
   deploy_preview (Completed 1 ''Website Draft URL: https://demo.netlify.app''
                     ''Warning: unsettled top-level await'') = None \<and>
   str_in ''https://'' ''https://netlify.app/demo'' \<and>
   str_in ''netlify'' ''https://netlify.app/demo'' \<and>
   url (deploy ascii_lower (Completed 1 ''https://netlify.app/demo'' [])) = None \<and>
   \<not> success (deploy ascii_lower (Completed 1 ''https://netlify.app/demo'' []))"
  by code_simp

text \<open>
  C6, amended. The loop of \<open>/api/deploy\<close> puts every line of the output text followed by
  the error text into at most one of three kinds, tested in this order. A website line
  holds \<open>website\<close> and \<open>url\<close> once lower-cased and has a token. A deploy line is not a
  website line in that sense, holds \<open>deploy\<close> and \<open>url\<close> once lower-cased and has a token,
  whether or not it also holds a URL. A Netlify-URL line holds neither pair of keywords
  and has a match of the pattern: \<open>https://\<close> followed, with no white space in between,
  by at least one character and then \<open>netlify\<close>. White space is what \<open>str.isspace\<close> accepts,
  not only the ASCII characters.

  Whenever some line holds one of the keyword pairs and has a token, or has a match of
  the pattern, the result is a success and carries a non-empty URL, whatever the exit
  code and whatever the error text holds besides. The URL comes from the last line that
  is a website line or a Netlify-URL line, when there is one: its last token if it is a
  website line, the first match of the pattern if it is a Netlify-URL line. When there is
  no such line, the URL is the last token of the last deploy line. The wizard returns no
  URL unless the exit code is 0.
\<close>

theorem deploy_url_line_means_success:
  assumes lines: "lines = split_on CHR 0x0A (stdout (run_command p) @ newline @ stderr (run_command p))"
    and mem: "l \<in> set lines"
    and rec: "(keyword_line lw ''website'' l \<or> keyword_line lw ''deploy'' l) \<and> split_ws l \<noteq> [] \<or>
              has_netlify_url l"
  shows "success (deploy lw p) \<and>
         url (deploy lw p) = Some
           (case filter (\<lambda>m. website_line lw m \<or> netlify_line lw m) lines of
              [] \<Rightarrow> last (split_ws (last (filter (deploy_line lw) lines)))
            | m # ms \<Rightarrow> if website_line lw (last (m # ms)) then last (split_ws (last (m # ms)))
                        else hd (findall_netlify (last (m # ms)))) \<and>
         url (deploy lw p) \<noteq> Some [] \<and>
         (\<not> success (run_command p) \<longrightarrow> deploy_preview p = None \<and> deploy_production p = None)"
proof -
  define st where "st = fold (scan_line lw) lines (None, None)"
  define final where "final = (if truthy (fst st) then fst st else snd st)"
  have st_eq: "st = fold (scan_line lw)
      (split_on CHR 0x0A (stdout (run_command p) @ newline @ stderr (run_command p))) (None, None)"
    by (simp add: st_def lines)
  have unf: "url (deploy lw p) = final"
    unfolding deploy_url Let_def final_def st_eq by (rule refl)
  let ?P = "filter (\<lambda>m. website_line lw m \<or> netlify_line lw m) lines"
  let ?S = "filter (deploy_line lw) lines"
  let ?u = "case ?P of
              [] \<Rightarrow> last (split_ws (last ?S))
            | m # ms \<Rightarrow> if website_line lw (last (m # ms)) then last (split_ws (last (m # ms)))
                        else hd (findall_netlify (last (m # ms)))"
  have tok: "split_ws l \<noteq> []"
    using rec has_netlify_url_token by blast
  have kinds: "website_line lw l \<or> deploy_line lw l \<or> netlify_line lw l"
    using rec tok unfolding website_line_def deploy_line_def netlify_line_def by blast
  have fin: "final = Some ?u \<and> ?u \<noteq> []"
  proof (cases ?P)
    case Nil
    then have "\<not> website_line lw l" "\<not> netlify_line lw l"
      using mem by (auto simp: filter_empty_conv)
    with kinds have "deploy_line lw l" by blast
    with mem have "l \<in> set ?S" by simp
    then obtain m ms where S: "?S = m # ms"
      by (cases ?S) auto
    have "last (m # ms) \<in> set ?S"
      unfolding S by (rule last_in_set) simp
    then have "split_ws (last (m # ms)) \<noteq> []"
      by (simp add: deploy_line_def)
    then have tok: "last (split_ws (last (m # ms))) \<noteq> []"
      by (rule last_token)
    have "st = (None, Some (last (split_ws (last (m # ms)))))"
      unfolding st_def fold_scan_line using Nil S by simp
    then show ?thesis
      using Nil S tok by (simp add: final_def truthy_def)
  next
    case (Cons m ms)
    have "last (m # ms) \<in> set ?P"
      unfolding Cons by (rule last_in_set) simp
    then have k: "website_line lw (last (m # ms)) \<or> netlify_line lw (last (m # ms))"
      by simp
    have ne: "(if website_line lw (last (m # ms)) then last (split_ws (last (m # ms)))
               else hd (findall_netlify (last (m # ms)))) \<noteq> []"
    proof (cases "website_line lw (last (m # ms))")
      case True
      then have "split_ws (last (m # ms)) \<noteq> []"
        by (simp add: website_line_def)
      then have "last (split_ws (last (m # ms))) \<noteq> []"
        by (rule last_token)
      with True show ?thesis by simp
    next
      case False
      with k have "has_netlify_url (last (m # ms))"
        by (simp add: netlify_line_def)
      then obtain u us where f: "findall_netlify (last (m # ms)) = u # us"
        using has_netlify_url_match by (cases "findall_netlify (last (m # ms))") auto
      then have "u \<noteq> []" by (rule findall_head_nonempty)
      with False f show ?thesis by simp
    qed
    have "fst st = Some (if website_line lw (last (m # ms)) then last (split_ws (last (m # ms)))
               else hd (findall_netlify (last (m # ms))))"
      unfolding st_def fold_scan_line using Cons by simp
    then show ?thesis
      using Cons ne by (simp add: final_def truthy_def)
  qed
  have wiz: "\<not> success (run_command p) \<longrightarrow> deploy_preview p = None \<and> deploy_production p = None"
    by (cases p) (simp_all add: run_command_def deploy_preview_def deploy_production_def)
  from fin unf have u: "url (deploy lw p) = Some ?u" and ne: "url (deploy lw p) \<noteq> Some []"
    by auto
  from u have "success (deploy lw p)"
    by (rule deploy_success_if_url)
  with u ne wiz show ?thesis
    by blast
qed

theorem deploy_url_line_means_success_witness:
  "''Website draft URL: https://demo--site.netlify.app''
     \<in> set (split_on CHR 0x0A
         (stdout (run_command (Completed 1
            (''Deploying to draft'' @ [CHR 0x0A] @ ''Website draft URL: https://demo--site.netlify.app'')
            ''Warning: unsettled top-level await'')) @ newline @
          stderr (run_command (Completed 1
            (''Deploying to draft'' @ [CHR 0x0A] @ ''Website draft URL: https://demo--site.netlify.app'')
            ''Warning: unsettled top-level await'')))) \<and>
   keyword_line ascii_lower ''website'' ''Website draft URL: https://demo--site.netlify.app'' \<and>
   split_ws ''Website draft URL: https://demo--site.netlify.app''
     = [''Website'', ''draft'', ''URL:'', ''https://demo--site.netlify.app''] \<and>
   \<not> success (run_command (Completed 1
            (''Deploying to draft'' @ [CHR 0x0A] @ ''Website draft URL: https://demo--site.netlify.app'')
            ''Warning: unsettled top-level await'')) \<and>
   success (deploy ascii_lower (Completed 1
            (''Deploying to draft'' @ [CHR 0x0A] @ ''Website draft URL: https://demo--site.netlify.app'')
            ''Warning: unsettled top-level await'')) \<and>
   url (deploy ascii_lower (Completed 1
            (''Deploying to draft'' @ [CHR 0x0A] @ ''Website draft URL: https://demo--site.netlify.app'')
            ''Warning: unsettled top-level await'')) = Some ''https://demo--site.netlify.app'' \<and>
   url (deploy ascii_lower (Completed 1
            (''Deploying to draft'' @ [CHR 0x0A] @ ''Website draft URL: https://demo--site.netlify.app'')
            ''Warning: unsettled top-level await'')) \<noteq> Some [] \<and>
   deploy_preview (Completed 1
            (''Deploying to draft'' @ [CHR 0x0A] @ ''Website draft URL: https://demo--site.netlify.app'')
            ''Warning: unsettled top-level await'') = None \<and>
   keyword_line ascii_lower ''deploy'' ''Unique deploy URL: https://b--a.netlify.app done'' \<and>
   findall_netlify ''Unique deploy URL: https://b--a.netlify.app done''
     = [''https://b--a.netlify.app''] \<and>
   success (deploy ascii_lower
              (Completed 1 ''Unique deploy URL: https://b--a.netlify.app done'' [])) \<and>
   url (deploy ascii_lower
          (Completed 1 ''Unique deploy URL: https://b--a.netlify.app done'' [])) = Some ''done''"
proof -
  let ?p = "Completed 1
            (''Deploying to draft'' @ [CHR 0x0A] @ ''Website draft URL: https://demo--site.netlify.app'')
            ''Warning: unsettled top-level await''"
  let ?l = "''Website draft URL: https://demo--site.netlify.app''"
  have mem: "?l \<in> set (split_on CHR 0x0A (stdout (run_command ?p) @ newline @ stderr (run_command ?p)))"
    by code_simp
  have kw: "keyword_line ascii_lower ''website'' ?l"
    by code_simp
  have toks: "split_ws ?l = [''Website'', ''draft'', ''URL:'', ''https://demo--site.netlify.app'']"
    by code_simp
  then have tok: "split_ws ?l \<noteq> []"
    by simp
  have rec: "(keyword_line ascii_lower ''website'' ?l \<or> keyword_line ascii_lower ''deploy'' ?l) \<and>
             split_ws ?l \<noteq> [] \<or> has_netlify_url ?l"
    using kw tok by blast
  have failed: "\<not> success (run_command ?p)"
    by (simp add: run_command_def)
  have val: "url (deploy ascii_lower ?p) = Some ''https://demo--site.netlify.app''"
    by code_simp
  note t = deploy_url_line_means_success [of _ ?p ?l ascii_lower, OF refl mem rec]
  note s = t [THEN conjunct1]
  note n = t [THEN conjunct2, THEN conjunct2, THEN conjunct1]
  note w = t [THEN conjunct2, THEN conjunct2, THEN conjunct2, THEN mp, OF failed, THEN conjunct1]
  let ?q = "Completed 1 ''Unique deploy URL: https://b--a.netlify.app done'' []"
  let ?m = "''Unique deploy URL: https://b--a.netlify.app done''"
  have mem2: "?m \<in> set (split_on CHR 0x0A (stdout (run_command ?q) @ newline @ stderr (run_command ?q)))"
    by code_simp
  have kw2: "keyword_line ascii_lower ''deploy'' ?m"
    by code_simp
  have tok2: "split_ws ?m \<noteq> []"
    by code_simp
  have rec2: "(keyword_line ascii_lower ''website'' ?m \<or> keyword_line ascii_lower ''deploy'' ?m) \<and>
             split_ws ?m \<noteq> [] \<or> has_netlify_url ?m"
    using kw2 tok2 by blast
  have urls2: "findall_netlify ?m = [''https://b--a.netlify.app'']"
    by code_simp
  have val2: "url (deploy ascii_lower ?q) = Some ''done''"
    by code_simp
  note s2 = deploy_url_line_means_success [of _ ?q ?m ascii_lower, OF refl mem2 rec2, THEN conjunct1]
  show ?thesis
    using mem kw toks failed s val n w kw2 urls2 s2 val2 by - (intro conjI, assumption+)
qed

text \<open>
  White space other than ASCII ends a URL and separates tokens, as in Python: a no-break
  space between \<open>https://x\<close> and \<open>netlify\<close> leaves no match of the pattern, and an
  ideographic space before the URL makes the URL a token of its own.
\<close>

lemma white_space_is_unicode:
  "findall_netlify (''https://x'' @ [CHR 0xC2, CHR 0xA0] @ ''netlify'') = [] \<and>
   url (deploy ascii_lower
          (Completed 1 (''https://x'' @ [CHR 0xC2, CHR 0xA0] @ ''netlify'') [])) = None \<and>
   \<not> success (deploy ascii_lower
          (Completed 1 (''https://x'' @ [CHR 0xC2, CHR 0xA0] @ ''netlify'') [])) \<and>
   split_ws (''Website URL:'' @ [CHR 0xE3, CHR 0x80, CHR 0x80] @ ''https://a.netlify.app'')
     = [''Website'', ''URL:'', ''https://a.netlify.app''] \<and>
   url (deploy ascii_lower
          (Completed 0 (''Website URL:'' @ [CHR 0xE3, CHR 0x80, CHR 0x80] @ ''https://a.netlify.app'') []))
     = Some ''https://a.netlify.app''"
  by code_simp

section \<open>The paths the scanner produces\<close>

text \<open>
  Every path \<open>scan_files\<close> returns for such a tree is a relative path in normal form, the
  form the statement on the functions directory asks of the file it reads.
\<close>

lemma set_join: "set (join [c] ns) \<subseteq> insert c (\<Union> (set ` set ns))"
  by (induction "[c]" ns rule: join.induct) auto

lemma valid_name_no_sep: "valid_name fl n \<Longrightarrow> os_sep fl \<notin> set n"
  by (cases fl) (simp_all add: valid_name_def os_sep_def)

lemma normal_join:
  assumes "\<forall>n\<in>set ns. valid_name fl n" and "ns \<noteq> []"
  shows "normal_rel_path fl (join [os_sep fl] ns)"
proof -
  have "split_on (os_sep fl) (join [os_sep fl] ns) = ns"
    using assms by (intro split_on_join) (auto dest: valid_name_no_sep)
  then have segs: "list_all (\<lambda>s. s \<noteq> [] \<and> s \<noteq> ''.'') (split_on (os_sep fl) (join [os_sep fl] ns))"
    using assms(1) by (simp add: list_all_iff valid_name_def)
  have "CHR ''/'' \<notin> set (join [os_sep fl] ns) \<and> CHR '':'' \<notin> set (join [os_sep fl] ns)"
    if "fl = Windows"
  proof -
    have "CHR ''/'' \<notin> insert (os_sep fl) (\<Union> (set ` set ns))"
      and "CHR '':'' \<notin> insert (os_sep fl) (\<Union> (set ` set ns))"
      using assms(1) that by (auto simp: valid_name_def os_sep_def)
    then show ?thesis
      using set_join [of "os_sep fl" ns] by blast
  qed
  with segs show ?thesis
    by (simp add: normal_rel_path_def)
qed

lemma walk_normal:
  "valid_tree fl node \<Longrightarrow> \<forall>n\<in>set pre. valid_name fl n \<Longrightarrow> f \<in> set (walk fl pre node)
     \<Longrightarrow> normal_rel_path fl f"
proof (induction fl pre node arbitrary: f rule: walk.induct)
  case (1 fl pre c)
  then show ?case by simp
next
  case (2 fl pre es)
  from "2.prems"(3) consider
    e where "e \<in> set es" "f = join [os_sep fl] (pre @ [fst e])"
    | e where "e \<in> set es" "is_dir (snd e)" "fst e \<notin> ignore_dirs"
        "f \<in> set (walk fl (pre @ [fst e]) (snd e))"
    by auto
  then show ?case
  proof cases
    case 1
    then have "\<forall>n\<in>set (pre @ [fst e]). valid_name fl n"
      using "2.prems"(1,2) by auto
    then show ?thesis
      unfolding 1(2) by (rule normal_join) simp
  next
    case 2
    have "valid_tree fl (snd e)" and "\<forall>n\<in>set (pre @ [fst e]). valid_name fl n"
      using 2(1) "2.prems"(1,2) by auto
    then show ?thesis
      using "2.IH" [of e f] 2 by simp
  qed
qed

lemma scanned_paths_are_normal:
  assumes "valid_tree fl node" and "f \<in> set (scan_files fl (Some node))"
  shows "normal_rel_path fl f"
  using walk_normal [of fl node "[]" f] assms by (simp add: scan_files_def)

end
